theory Spec2Isabelle
  imports Complex_Main "HOL-Library.Monad_Syntax"
begin

section \<open>Mathematics used by the contact cache\<close>

text \<open>
  The numbers of the program are C++ doubles. Every definition below is written once,
  for any type \<open>'a\<close> of numbers that has \<open>0\<close>, \<open>+\<close>, \<open>-\<close>, \<open>*\<close>, \<open><\<close> and \<open>\<le>\<close>; nothing
  is assumed of these operations, so what is proved for every \<open>'a\<close> holds whatever the
  arithmetic rounds to and whatever the comparisons answer. Two types of numbers are
  used for concrete inputs and where a property needs more: \<^typ>\<open>real\<close> (exact
  arithmetic, total order) and the type \<open>double\<close> that follows.
\<close>

text \<open>
  \<open>double\<close>: the values of an IEEE 754 binary64 number that matter to the control flow of
  the program: finite numbers, the two infinities and NaN. A finite result of magnitude
  \<open>DBL_OVERFLOW = 2 ^ 1024\<close> or more becomes an infinity, \<open>\<infinity> - \<infinity>\<close> and \<open>0 * \<infinity>\<close> are
  NaN, NaN propagates, and every comparison with NaN is false. Finite results are kept
  exact: the rounding to 53 bits and the sign of zero are not modelled.
\<close>

datatype double = Finite real | PlusInfinity | MinusInfinity | NaN

definition DBL_OVERFLOW :: real where
  "DBL_OVERFLOW = 2 ^ 1024"

definition overflow :: "real \<Rightarrow> double" where
  "overflow x =
     (if DBL_OVERFLOW \<le> x then PlusInfinity
      else if x \<le> - DBL_OVERFLOW then MinusInfinity
      else Finite x)"

instantiation double :: "{zero, plus, uminus, minus, times, ord}"
begin

definition zero_double :: double where
  "zero_double = Finite 0"

fun uminus_double :: "double \<Rightarrow> double" where
  "uminus_double (Finite x) = Finite (- x)"
| "uminus_double PlusInfinity = MinusInfinity"
| "uminus_double MinusInfinity = PlusInfinity"
| "uminus_double NaN = NaN"

fun plus_double :: "double \<Rightarrow> double \<Rightarrow> double" where
  "plus_double (Finite x) (Finite y) = overflow (x + y)"
| "plus_double NaN b = NaN"
| "plus_double a NaN = NaN"
| "plus_double PlusInfinity MinusInfinity = NaN"
| "plus_double MinusInfinity PlusInfinity = NaN"
| "plus_double PlusInfinity b = PlusInfinity"
| "plus_double a PlusInfinity = PlusInfinity"
| "plus_double MinusInfinity b = MinusInfinity"
| "plus_double a MinusInfinity = MinusInfinity"

definition minus_double :: "double \<Rightarrow> double \<Rightarrow> double" where
  "minus_double a b = a + (- b)"

fun times_double :: "double \<Rightarrow> double \<Rightarrow> double" where
  "times_double (Finite x) (Finite y) = overflow (x * y)"
| "times_double NaN b = NaN"
| "times_double a NaN = NaN"
| "times_double (Finite x) PlusInfinity =
     (if x = 0 then NaN else if 0 < x then PlusInfinity else MinusInfinity)"
| "times_double (Finite x) MinusInfinity =
     (if x = 0 then NaN else if 0 < x then MinusInfinity else PlusInfinity)"
| "times_double PlusInfinity (Finite y) =
     (if y = 0 then NaN else if 0 < y then PlusInfinity else MinusInfinity)"
| "times_double MinusInfinity (Finite y) =
     (if y = 0 then NaN else if 0 < y then MinusInfinity else PlusInfinity)"
| "times_double PlusInfinity PlusInfinity = PlusInfinity"
| "times_double PlusInfinity MinusInfinity = MinusInfinity"
| "times_double MinusInfinity PlusInfinity = MinusInfinity"
| "times_double MinusInfinity MinusInfinity = PlusInfinity"

fun less_eq_double :: "double \<Rightarrow> double \<Rightarrow> bool" where
  "less_eq_double (Finite x) (Finite y) = (x \<le> y)"
| "less_eq_double NaN b = False"
| "less_eq_double a NaN = False"
| "less_eq_double MinusInfinity b = True"
| "less_eq_double a PlusInfinity = True"
| "less_eq_double PlusInfinity b = False"
| "less_eq_double a MinusInfinity = False"

fun less_double :: "double \<Rightarrow> double \<Rightarrow> bool" where
  "less_double (Finite x) (Finite y) = (x < y)"
| "less_double NaN b = False"
| "less_double a NaN = False"
| "less_double MinusInfinity MinusInfinity = False"
| "less_double PlusInfinity PlusInfinity = False"
| "less_double MinusInfinity b = True"
| "less_double a PlusInfinity = True"
| "less_double PlusInfinity b = False"
| "less_double a MinusInfinity = False"

instance ..

end

text \<open>
  Modelled from the spec: the class Vector3 (mathematics/Vector3.h is not among the
  sources): a triple of numbers with subtraction, addition, scalar multiplication,
  dot product, cross product, squared length and length.
\<close>

datatype 'a Vector3 = Vector3 (getX: 'a) (getY: 'a) (getZ: 'a)

definition plusV :: "'a::plus Vector3 \<Rightarrow> 'a Vector3 \<Rightarrow> 'a Vector3" where
  "plusV a b = Vector3 (getX a + getX b) (getY a + getY b) (getZ a + getZ b)"

definition minusV :: "'a::minus Vector3 \<Rightarrow> 'a Vector3 \<Rightarrow> 'a Vector3" where
  "minusV a b = Vector3 (getX a - getX b) (getY a - getY b) (getZ a - getZ b)"

definition scaleV :: "'a::times Vector3 \<Rightarrow> 'a \<Rightarrow> 'a Vector3" where
  "scaleV a k = Vector3 (getX a * k) (getY a * k) (getZ a * k)"

definition dot :: "'a::{plus,times} Vector3 \<Rightarrow> 'a Vector3 \<Rightarrow> 'a" where
  "dot a b = getX a * getX b + getY a * getY b + getZ a * getZ b"

definition cross :: "'a::{minus,times} Vector3 \<Rightarrow> 'a Vector3 \<Rightarrow> 'a Vector3" where
  "cross a b = Vector3 (getY a * getZ b - getZ a * getY b)
                       (getZ a * getX b - getX a * getZ b)
                       (getX a * getY b - getY a * getX b)"

definition lengthSquare :: "'a::{plus,times} Vector3 \<Rightarrow> 'a" where
  "lengthSquare a = getX a * getX a + getY a * getY a + getZ a * getZ a"

definition lengthV :: "real Vector3 \<Rightarrow> real" where
  "lengthV a = sqrt (lengthSquare a)"

text \<open>
  Modelled from the spec: the class Transform (mathematics/Transform.h is not among the
  sources): a rotation and a translation; applied to a point \<open>p\<close> it yields
  \<open>R \<cdot> p + t\<close>. The rotation is kept as a 3x3 matrix given by its rows; nothing
  below needs it to be orthogonal.
\<close>

datatype 'a Matrix3x3 =
  Matrix3x3 (row0: "'a Vector3") (row1: "'a Vector3") (row2: "'a Vector3")

definition mulMV :: "'a::{plus,times} Matrix3x3 \<Rightarrow> 'a Vector3 \<Rightarrow> 'a Vector3" where
  "mulMV m v = Vector3 (dot (row0 m) v) (dot (row1 m) v) (dot (row2 m) v)"

record 'a Transform =
  orientation :: "'a Matrix3x3"
  position :: "'a Vector3"

definition applyTransform :: "'a::{plus,times} Transform \<Rightarrow> 'a Vector3 \<Rightarrow> 'a Vector3" where
  "applyTransform t p = plusV (mulMV (orientation t) p) (position t)"

text \<open>
  Modelled from the spec: the capacity of a cache, a constant of constants.h (not
  among the sources). The other constant of that file that the cache uses, the lateral
  distance PERSISTENT_CONTACT_DIST_THRESHOLD beyond which a cached contact is dropped,
  is a parameter of \<^verbatim>\<open>update\<close> below.
\<close>

definition MAX_CONTACTS_IN_CACHE :: nat where
  "MAX_CONTACTS_IN_CACHE = 4"


section \<open>Contact (constraint/Contact.h)\<close>

record 'a Contact =
  normal :: "'a Vector3"
  penetrationDepth :: 'a
  localPointOnBody1 :: "'a Vector3"
  localPointOnBody2 :: "'a Vector3"
  worldPointOnBody1 :: "'a Vector3"
  worldPointOnBody2 :: "'a Vector3"
  frictionVectors :: "'a Vector3 list"
  mu_mc_g :: 'a

definition getNormal :: "'a Contact \<Rightarrow> 'a Vector3" where
  "getNormal c = normal c"

definition setPenetrationDepth :: "'a \<Rightarrow> 'a Contact \<Rightarrow> 'a Contact" where
  "setPenetrationDepth d c = c\<lparr>penetrationDepth := d\<rparr>"

definition getLocalPointOnBody1 :: "'a Contact \<Rightarrow> 'a Vector3" where
  "getLocalPointOnBody1 c = localPointOnBody1 c"

definition getLocalPointOnBody2 :: "'a Contact \<Rightarrow> 'a Vector3" where
  "getLocalPointOnBody2 c = localPointOnBody2 c"

definition getWorldPointOnBody1 :: "'a Contact \<Rightarrow> 'a Vector3" where
  "getWorldPointOnBody1 c = worldPointOnBody1 c"

definition getWorldPointOnBody2 :: "'a Contact \<Rightarrow> 'a Vector3" where
  "getWorldPointOnBody2 c = worldPointOnBody2 c"

definition setWorldPointOnBody1 :: "'a Vector3 \<Rightarrow> 'a Contact \<Rightarrow> 'a Contact" where
  "setWorldPointOnBody1 worldPoint c = c\<lparr>worldPointOnBody1 := worldPoint\<rparr>"

definition setWorldPointOnBody2 :: "'a Vector3 \<Rightarrow> 'a Contact \<Rightarrow> 'a Contact" where
  "setWorldPointOnBody2 worldPoint c = c\<lparr>worldPointOnBody2 := worldPoint\<rparr>"

definition getPenetrationDepth :: "'a Contact \<Rightarrow> 'a" where
  "getPenetrationDepth c = penetrationDepth c"

text \<open>
  \<^verbatim>\<open>Contact::computeFrictionVectors\<close>: the vector of friction directions is cleared, then
  receives \<open>normal.getOneOrthogonalVector()\<close> and \<open>normal.cross(vector1)\<close>.
  \<^verbatim>\<open>Vector3::getOneOrthogonalVector\<close> is not among the sources and is a parameter.
\<close>

definition computeFrictionVectors ::
  "('a::{minus,times} Vector3 \<Rightarrow> 'a Vector3) \<Rightarrow> 'a Contact \<Rightarrow> 'a Contact" where
  "computeFrictionVectors getOneOrthogonalVector c =
     (let c1 = c\<lparr>frictionVectors := []\<rparr>;
          vector1 = getOneOrthogonalVector (normal c1);
          c2 = c1\<lparr>frictionVectors := frictionVectors c1 @ [vector1]\<rparr>
      in c2\<lparr>frictionVectors := frictionVectors c2 @ [cross (normal c2) vector1]\<rparr>)"

text \<open>
  Modelled from the spec: the value a narrow-phase collision test produces
  (collision/ContactInfo.h is not among the sources).
\<close>

record 'a ContactInfo =
  info_normal :: "'a Vector3"
  info_penetrationDepth :: 'a
  info_localPoint1 :: "'a Vector3"
  info_localPoint2 :: "'a Vector3"

text \<open>
  Modelled from the spec: the constructor \<^verbatim>\<open>Contact::Contact(const ContactInfo*)\<close>
  (Contact.cpp is not among the sources). It copies the normal, the depth and the two
  local anchors and computes the friction basis; the world anchors are not determined by
  the spec before the first refresh, so their initial contents \<open>w1\<close>, \<open>w2\<close> and that of
  \<open>mu_mc_g\<close> are arguments.
\<close>

definition Contact_new ::
  "('a::{minus,times} Vector3 \<Rightarrow> 'a Vector3) \<Rightarrow> 'a ContactInfo \<Rightarrow> 'a Vector3 \<Rightarrow> 'a Vector3 \<Rightarrow> 'a
     \<Rightarrow> 'a Contact" where
  "Contact_new getOneOrthogonalVector info w1 w2 mu =
     computeFrictionVectors getOneOrthogonalVector
       \<lparr>normal = info_normal info,
        penetrationDepth = info_penetrationDepth info,
        localPointOnBody1 = info_localPoint1 info,
        localPointOnBody2 = info_localPoint2 info,
        worldPointOnBody1 = w1,
        worldPointOnBody2 = w2,
        frictionVectors = [],
        mu_mc_g = mu\<rparr>"


section \<open>PersistentContactCache (engine/PersistentContactCache.cpp)\<close>

text \<open>
  The cache holds pointers to contacts that live in a memory pool. A pointer is an
  address; \<open>heap\<close> gives the contact stored at an address; \<open>contacts\<close> is the array
  \<^verbatim>\<open>Contact* contacts[MAX_CONTACTS_IN_CACHE]\<close>, whose slots from \<open>nbContacts\<close> on keep
  whatever pointer was last written there; \<open>memoryPoolContacts\<close> records, in order, the
  pointers handed back with \<^verbatim>\<open>freeObject\<close> (each after the explicit destructor call).
  The count \<open>nbContacts\<close> is unsigned in the source and a natural number here: its only
  decrement follows \<^verbatim>\<open>assert(nbContacts > 0)\<close>. Indices declared \<^verbatim>\<open>int\<close> are integers.
\<close>

type_synonym ptr = nat

record 'a PersistentContactCache =
  body1 :: ptr
  body2 :: ptr
  contacts :: "ptr list"
  nbContacts :: nat
  memoryPoolContacts :: "ptr list"
  heap :: "ptr \<Rightarrow> 'a Contact"

text \<open>The constructor sets \<open>nbContacts\<close> to 0 and leaves the array as it finds it.\<close>

definition PersistentContactCache_new ::
  "ptr \<Rightarrow> ptr \<Rightarrow> ptr list \<Rightarrow> ptr list \<Rightarrow> (ptr \<Rightarrow> 'a Contact) \<Rightarrow> 'a PersistentContactCache" where
  "PersistentContactCache_new b1 b2 pool array h =
     \<lparr>body1 = b1, body2 = b2, contacts = array, nbContacts = 0,
      memoryPoolContacts = pool, heap = h\<rparr>"

definition freeObject :: "ptr \<Rightarrow> 'a PersistentContactCache \<Rightarrow> 'a PersistentContactCache" where
  "freeObject p s = s\<lparr>memoryPoolContacts := memoryPoolContacts s @ [p]\<rparr>"

text \<open>
  \<^verbatim>\<open>removeContact\<close>. A failed \<^verbatim>\<open>assert\<close> is the result \<open>None\<close>.
\<close>

definition removeContact ::
  "int \<Rightarrow> 'a PersistentContactCache \<Rightarrow> 'a PersistentContactCache option" where
  "removeContact index s =
     (if \<not> (index \<ge> 0 \<and> index < int (nbContacts s)) then None
      else if \<not> (nbContacts s > 0) then None
      else
        let s1 = freeObject (contacts s ! nat index) s;
            s2 = (if index < int (nbContacts s1) - 1
                  then s1\<lparr>contacts := (contacts s1)[nat index := contacts s1 ! (nbContacts s1 - 1)]\<rparr>
                  else s1)
        in Some (s2\<lparr>nbContacts := nbContacts s2 - 1\<rparr>))"

text \<open>\<^verbatim>\<open>getMaxArea\<close>: the cascade of strict comparisons, as written.\<close>

definition getMaxArea :: "'a::ord \<Rightarrow> 'a \<Rightarrow> 'a \<Rightarrow> 'a \<Rightarrow> int" where
  "getMaxArea area0 area1 area2 area3 =
     (if area0 < area1 then
        (if area1 < area2 then
           (if area2 < area3 then 3 else 2)
         else
           (if area1 < area3 then 3 else 1))
      else
        (if area0 < area2 then
           (if area2 < area3 then 3 else 2)
         else
           (if area0 < area3 then 3 else 0)))"

text \<open>
  \<^verbatim>\<open>getIndexOfDeepestPenetration\<close>: the loop over \<open>i = 0 .. nbContacts - 1\<close> carries the
  pair (indexMaxPenetrationDepth, maxPenetrationDepth).
\<close>

fun deepestLoop ::
  "'a::ord PersistentContactCache \<Rightarrow> nat list \<Rightarrow> int \<times> 'a \<Rightarrow> int \<times> 'a" where
  "deepestLoop s [] acc = acc"
| "deepestLoop s (i # is) (indexMaxPenetrationDepth, maxPenetrationDepth) =
     (if getPenetrationDepth (heap s (contacts s ! i)) > maxPenetrationDepth
      then deepestLoop s is (int i, getPenetrationDepth (heap s (contacts s ! i)))
      else deepestLoop s is (indexMaxPenetrationDepth, maxPenetrationDepth))"

definition getIndexOfDeepestPenetration ::
  "ptr \<Rightarrow> 'a::ord PersistentContactCache \<Rightarrow> int option" where
  "getIndexOfDeepestPenetration newContact s =
     (if nbContacts s \<noteq> MAX_CONTACTS_IN_CACHE then None
      else Some (fst (deepestLoop s [0..<nbContacts s]
                        (- 1, getPenetrationDepth (heap s newContact)))))"

definition getIndexToRemove ::
  "int \<Rightarrow> 'a::{zero,plus,minus,times,ord} Vector3 \<Rightarrow> 'a PersistentContactCache \<Rightarrow> int option" where
  "getIndexToRemove indexMaxPenetration newPoint s =
     (if nbContacts s \<noteq> MAX_CONTACTS_IN_CACHE then None
      else
        let p = (\<lambda>i. getLocalPointOnBody1 (heap s (contacts s ! i)));
            area0 = (if indexMaxPenetration \<noteq> 0
                     then lengthSquare (cross (minusV newPoint (p 1)) (minusV (p 3) (p 2)))
                     else 0);
            area1 = (if indexMaxPenetration \<noteq> 1
                     then lengthSquare (cross (minusV newPoint (p 0)) (minusV (p 3) (p 2)))
                     else 0);
            area2 = (if indexMaxPenetration \<noteq> 2
                     then lengthSquare (cross (minusV newPoint (p 0)) (minusV (p 3) (p 1)))
                     else 0);
            area3 = (if indexMaxPenetration \<noteq> 3
                     then lengthSquare (cross (minusV newPoint (p 0)) (minusV (p 2) (p 1)))
                     else 0)
        in Some (getMaxArea area0 area1 area2 area3))"

text \<open>
  \<^verbatim>\<open>addContact\<close>. The first loop looks for a cached contact with approximately the
  same local point on body 1; \<^verbatim>\<open>isApproxEqual\<close> (mathematics.h) is not among the
  sources and is a parameter.
\<close>

fun duplicateLoop ::
  "('a Vector3 \<Rightarrow> 'a Vector3 \<Rightarrow> bool) \<Rightarrow> ptr \<Rightarrow> 'a PersistentContactCache \<Rightarrow> nat list \<Rightarrow> bool" where
  "duplicateLoop isApproxEqual contact s [] = False"
| "duplicateLoop isApproxEqual contact s (i # is) =
     (if isApproxEqual (getLocalPointOnBody1 (heap s contact))
                       (getLocalPointOnBody1 (heap s (contacts s ! i)))
      then True
      else duplicateLoop isApproxEqual contact s is)"

definition addContact ::
  "('a::{zero,plus,minus,times,ord} Vector3 \<Rightarrow> 'a Vector3 \<Rightarrow> bool) \<Rightarrow> ptr
     \<Rightarrow> 'a PersistentContactCache \<Rightarrow> 'a PersistentContactCache option" where
  "addContact isApproxEqual contact s =
     (if duplicateLoop isApproxEqual contact s [0..<nbContacts s]
      then Some (freeObject contact s)
      else if nbContacts s = MAX_CONTACTS_IN_CACHE then
        do {
          indexMaxPenetration \<leftarrow> getIndexOfDeepestPenetration contact s;
          indexToRemove \<leftarrow> getIndexToRemove indexMaxPenetration
                             (getLocalPointOnBody1 (heap s contact)) s;
          s1 \<leftarrow> removeContact indexToRemove s;
          Some (s1\<lparr>contacts := (contacts s1)[nat indexToRemove := contact],
                   nbContacts := nbContacts s1 + 1\<rparr>)
        }
      else
        Some (s\<lparr>contacts := (contacts s)[nbContacts s := contact],
                 nbContacts := nbContacts s + 1\<rparr>))"

text \<open>
  \<^verbatim>\<open>update\<close>. The first loop recomputes the world points and the depth of the cached
  contacts, in place; the second one goes from the last slot to slot 0 and removes the
  contacts that no longer fit. \<open>sweepLoop t (Suc i)\<close> is the iteration at index \<open>i\<close>
  followed by the remaining ones. Its two tests are the comparisons of the source, on
  the numbers of the cache: for doubles both are false on NaN, and the contact stays.
  The constant PERSISTENT_CONTACT_DIST_THRESHOLD (constants.h, not among the sources) is
  the first argument.
\<close>

definition refreshContact ::
  "'a::{plus,minus,times} Transform \<Rightarrow> 'a Transform \<Rightarrow> 'a Contact \<Rightarrow> 'a Contact" where
  "refreshContact transform1 transform2 c =
     (let c1 = setWorldPointOnBody1 (applyTransform transform1 (getLocalPointOnBody1 c)) c;
          c2 = setWorldPointOnBody2 (applyTransform transform2 (getLocalPointOnBody2 c1)) c1
      in setPenetrationDepth
           (dot (minusV (getWorldPointOnBody1 c2) (getWorldPointOnBody2 c2)) (getNormal c2)) c2)"

fun refreshLoop ::
  "'a::{plus,minus,times} Transform \<Rightarrow> 'a Transform \<Rightarrow> 'a PersistentContactCache \<Rightarrow> nat list
     \<Rightarrow> 'a PersistentContactCache" where
  "refreshLoop transform1 transform2 s [] = s"
| "refreshLoop transform1 transform2 s (i # is) =
     refreshLoop transform1 transform2
       (s\<lparr>heap := (heap s)(contacts s ! i :=
                     refreshContact transform1 transform2 (heap s (contacts s ! i)))\<rparr>) is"

fun sweepLoop ::
  "'a::{zero,plus,minus,times,ord} \<Rightarrow> nat \<Rightarrow> 'a PersistentContactCache
     \<Rightarrow> 'a PersistentContactCache option" where
  "sweepLoop PERSISTENT_CONTACT_DIST_THRESHOLD 0 s = Some s"
| "sweepLoop PERSISTENT_CONTACT_DIST_THRESHOLD (Suc i) s =
     (if \<not> i < nbContacts s then None
      else if getPenetrationDepth (heap s (contacts s ! i)) \<le> 0 then
        do { s1 \<leftarrow> removeContact (int i) s;
             sweepLoop PERSISTENT_CONTACT_DIST_THRESHOLD i s1 }
      else
        let c = heap s (contacts s ! i);
            projOfPoint1 = minusV (getWorldPointOnBody1 c)
                                  (scaleV (getNormal c) (getPenetrationDepth c));
            projDifference = minusV (getWorldPointOnBody2 c) projOfPoint1
        in if lengthSquare projDifference
                > PERSISTENT_CONTACT_DIST_THRESHOLD * PERSISTENT_CONTACT_DIST_THRESHOLD
           then do { s1 \<leftarrow> removeContact (int i) s;
                     sweepLoop PERSISTENT_CONTACT_DIST_THRESHOLD i s1 }
           else sweepLoop PERSISTENT_CONTACT_DIST_THRESHOLD i s)"

definition update ::
  "'a::{zero,plus,minus,times,ord} \<Rightarrow> 'a Transform \<Rightarrow> 'a Transform \<Rightarrow> 'a PersistentContactCache
     \<Rightarrow> 'a PersistentContactCache option" where
  "update PERSISTENT_CONTACT_DIST_THRESHOLD transform1 transform2 s =
     (if nbContacts s = 0 then Some s
      else
        let s1 = refreshLoop transform1 transform2 s [0..<nbContacts s]
        in sweepLoop PERSISTENT_CONTACT_DIST_THRESHOLD (nbContacts s1) s1)"

text \<open>\<^verbatim>\<open>clear\<close>: every cached contact is destroyed and given back to the pool.\<close>

fun clearLoop :: "'a PersistentContactCache \<Rightarrow> nat list \<Rightarrow> 'a PersistentContactCache" where
  "clearLoop s [] = s"
| "clearLoop s (i # is) = clearLoop (freeObject (contacts s ! i) s) is"

definition clear :: "'a PersistentContactCache \<Rightarrow> 'a PersistentContactCache" where
  "clear s = (clearLoop s [0..<nbContacts s])\<lparr>nbContacts := 0\<rparr>"

text \<open>
  The operations a client applies to a cache. For \<open>Add\<close> the client first builds the
  contact \<open>c\<close> in the pool, at address \<open>p\<close>, and then hands \<open>p\<close> to \<^verbatim>\<open>addContact\<close>.
\<close>

datatype 'a operation = Add ptr "'a Contact" | Update "'a Transform" "'a Transform" | Clear

fun apply_operation ::
  "'a::{zero,plus,minus,times,ord} \<Rightarrow> ('a Vector3 \<Rightarrow> 'a Vector3 \<Rightarrow> bool) \<Rightarrow> 'a operation
     \<Rightarrow> 'a PersistentContactCache \<Rightarrow> 'a PersistentContactCache option" where
  "apply_operation PERSISTENT_CONTACT_DIST_THRESHOLD isApproxEqual (Add p c) s =
     addContact isApproxEqual p (s\<lparr>heap := (heap s)(p := c)\<rparr>)"
| "apply_operation PERSISTENT_CONTACT_DIST_THRESHOLD isApproxEqual
     (Update transform1 transform2) s =
     update PERSISTENT_CONTACT_DIST_THRESHOLD transform1 transform2 s"
| "apply_operation PERSISTENT_CONTACT_DIST_THRESHOLD isApproxEqual Clear s = Some (clear s)"

fun apply_operations ::
  "'a::{zero,plus,minus,times,ord} \<Rightarrow> ('a Vector3 \<Rightarrow> 'a Vector3 \<Rightarrow> bool) \<Rightarrow> 'a operation list
     \<Rightarrow> 'a PersistentContactCache \<Rightarrow> 'a PersistentContactCache option" where
  "apply_operations PERSISTENT_CONTACT_DIST_THRESHOLD isApproxEqual [] s = Some s"
| "apply_operations PERSISTENT_CONTACT_DIST_THRESHOLD isApproxEqual (operation # rest) s =
     do { s1 \<leftarrow> apply_operation PERSISTENT_CONTACT_DIST_THRESHOLD isApproxEqual operation s;
          apply_operations PERSISTENT_CONTACT_DIST_THRESHOLD isApproxEqual rest s1 }"

text \<open>
  The representation invariant of the class: the array has its four slots and the
  count does not exceed them. In such a state every array access of the functions
  above is within the array.
\<close>

definition well_formed :: "'a PersistentContactCache \<Rightarrow> bool" where
  "well_formed s \<longleftrightarrow>
     length (contacts s) = MAX_CONTACTS_IN_CACHE \<and> nbContacts s \<le> MAX_CONTACTS_IN_CACHE"


text \<open>The pointers held in the live slots \<open>0 .. nbContacts - 1\<close>.\<close>

definition liveSlots :: "'a PersistentContactCache \<Rightarrow> ptr set" where
  "liveSlots s = (\<lambda>j. contacts s ! j) ` {..<nbContacts s}"

text \<open>
  \<open>releases_only s s'\<close>: from \<open>s\<close> to \<open>s'\<close> no contact object was written, the array
  kept its size, the live slots of \<open>s'\<close> hold pointers that were live in \<open>s\<close>, and the
  pool received one pointer for each contact that left the count, each of them live
  in \<open>s\<close>.
\<close>

definition releases_only ::
  "'a PersistentContactCache \<Rightarrow> 'a PersistentContactCache \<Rightarrow> bool" where
  "releases_only s s' \<longleftrightarrow>
     heap s' = heap s \<and> body1 s' = body1 s \<and> body2 s' = body2 s \<and>
     length (contacts s') = length (contacts s) \<and>
     nbContacts s' \<le> nbContacts s \<and> liveSlots s' \<subseteq> liveSlots s \<and>
     (\<exists>released. memoryPoolContacts s' = memoryPoolContacts s @ released \<and>
                 set released \<subseteq> liveSlots s \<and>
                 nbContacts s' + length released = nbContacts s)"

text \<open>
  The squared distance that \<^verbatim>\<open>update\<close> compares with the threshold: the second
  world point against the first one moved back along the normal by the depth.
\<close>

definition tangentialDriftSquare :: "'a::{plus,minus,times} Contact \<Rightarrow> 'a" where
  "tangentialDriftSquare c =
     lengthSquare (minusV (getWorldPointOnBody2 c)
                          (minusV (getWorldPointOnBody1 c)
                                  (scaleV (getNormal c) (getPenetrationDepth c))))"


section \<open>Concrete caches\<close>

text \<open>
  The states at which the theorems below are instantiated. Every contact has the
  normal (0, 1, 0). Modelled from the spec: \<open>approxEqualWithin\<close> is an instance of
  the approximate equality of two points, a small absolute tolerance on each
  coordinate; it is used for concrete inputs only.
\<close>

definition approxEqualWithin :: "real \<Rightarrow> real Vector3 \<Rightarrow> real Vector3 \<Rightarrow> bool" where
  "approxEqualWithin eps a b \<longleftrightarrow>
     \<bar>getX a - getX b\<bar> < eps \<and> \<bar>getY a - getY b\<bar> < eps \<and> \<bar>getZ a - getZ b\<bar> < eps"

definition identityTransform :: "real Transform" where
  "identityTransform =
     \<lparr>orientation = Matrix3x3 (Vector3 1 0 0) (Vector3 0 1 0) (Vector3 0 0 1),
      position = Vector3 0 0 0\<rparr>"

definition liftTransform :: "real Transform" where
  "liftTransform =
     \<lparr>orientation = Matrix3x3 (Vector3 1 0 0) (Vector3 0 1 0) (Vector3 0 0 1),
      position = Vector3 0 (1 / 200) 0\<rparr>"

definition contactAt :: "real Vector3 \<Rightarrow> real Vector3 \<Rightarrow> real \<Rightarrow> real Contact" where
  "contactAt l1 l2 d =
     \<lparr>normal = Vector3 0 1 0, penetrationDepth = d,
      localPointOnBody1 = l1, localPointOnBody2 = l2,
      worldPointOnBody1 = l1, worldPointOnBody2 = l2,
      frictionVectors = [Vector3 1 0 0, Vector3 0 0 (- 1)], mu_mc_g = 0\<rparr>"

text \<open>
  Four cached contacts at the addresses 10 .. 13, at the corners of a unit square, and a
  fifth contact at every other address (14 below). The stored depths are those of an
  earlier step; the contact at 12 is the deepest. Under identity transforms the points
  of the contact at 11 have separated and those of the contact at 13 are 1 apart
  sideways.
\<close>

definition exampleHeap :: "ptr \<Rightarrow> real Contact" where
  "exampleHeap p =
     (if p = 10 then contactAt (Vector3 0 0 0) (Vector3 0 (- 1 / 100) 0) (1 / 100)
      else if p = 11 then contactAt (Vector3 1 0 0) (Vector3 1 (1 / 100) 0) (1 / 100)
      else if p = 12 then contactAt (Vector3 0 0 1) (Vector3 0 (- 3 / 100) 1) (3 / 100)
      else if p = 13 then contactAt (Vector3 1 0 1) (Vector3 2 (- 1 / 100) 1) (1 / 100)
      else contactAt (Vector3 (- 1) 0 1) (Vector3 (- 1) (- 2 / 100) 1) (2 / 100))"

definition exampleCache :: "real PersistentContactCache" where
  "exampleCache =
     \<lparr>body1 = 1, body2 = 2, contacts = [10, 11, 12, 13], nbContacts = 4,
      memoryPoolContacts = [], heap = exampleHeap\<rparr>"

definition emptyCache :: "real PersistentContactCache" where
  "emptyCache = PersistentContactCache_new 1 2 [] [0, 0, 0, 0] exampleHeap"

definition exampleOperations :: "real operation list" where
  "exampleOperations =
     [Add 10 (exampleHeap 10), Add 11 (exampleHeap 11), Add 12 (exampleHeap 12),
      Add 13 (exampleHeap 13), Add 14 (exampleHeap 14),
      Update identityTransform identityTransform, Clear]"

text \<open>
  A full cache whose four contacts lie on one line (an edge resting on a face), the
  first of them the deepest, and a fifth contact further along the same line.
\<close>

definition collinearHeap :: "ptr \<Rightarrow> real Contact" where
  "collinearHeap p =
     (if p = 20 then contactAt (Vector3 0 0 0) (Vector3 0 (- 5 / 100) 0) (5 / 100)
      else if p = 21 then contactAt (Vector3 1 0 0) (Vector3 1 (- 1 / 100) 0) (1 / 100)
      else if p = 22 then contactAt (Vector3 2 0 0) (Vector3 2 (- 1 / 100) 0) (1 / 100)
      else if p = 23 then contactAt (Vector3 3 0 0) (Vector3 3 (- 1 / 100) 0) (1 / 100)
      else contactAt (Vector3 4 0 0) (Vector3 4 (- 1 / 100) 0) (1 / 100))"

definition collinearCache :: "real PersistentContactCache" where
  "collinearCache =
     \<lparr>body1 = 1, body2 = 2, contacts = [20, 21, 22, 23], nbContacts = 4,
      memoryPoolContacts = [], heap = collinearHeap\<rparr>"

text \<open>
  The cache of the first example and, at address 15, a new contact whose local point
  on body 1 is within 1e-7 of that of the contact in slot 2.
\<close>

definition nearDuplicateCache :: "real PersistentContactCache" where
  "nearDuplicateCache =
     exampleCache\<lparr>heap := exampleHeap
       (15 := contactAt (Vector3 0 0 (10000001 / 10000000)) (Vector3 0 (- 3 / 100) 1) (3 / 100))\<rparr>"

text \<open>
  Modelled from the spec: the value the spec recommends for
  PERSISTENT_CONTACT_DIST_THRESHOLD (constants.h is not among the sources).
\<close>

definition recommendedThreshold :: real where
  "recommendedThreshold = 0.02"

text \<open>The penetration depths of the contacts in the live slots, slot by slot.\<close>

definition livePenetrationDepths :: "'a PersistentContactCache \<Rightarrow> 'a list" where
  "livePenetrationDepths s =
     map (\<lambda>i. getPenetrationDepth (heap s (contacts s ! i))) [0..<nbContacts s]"

text \<open>
  A cache of doubles with one contact, both of whose local points are at height
  \<open>DBL_OVERFLOW / 2 = 2 ^ 1023\<close>, and a transform that lifts by as much. All of these
  numbers are finite doubles; the sum of two of them is not.
\<close>

definition farTransform :: "double Transform" where
  "farTransform =
     \<lparr>orientation = Matrix3x3 (Vector3 (Finite 1) (Finite 0) (Finite 0))
                               (Vector3 (Finite 0) (Finite 1) (Finite 0))
                               (Vector3 (Finite 0) (Finite 0) (Finite 1)),
      position = Vector3 (Finite 0) (Finite (DBL_OVERFLOW / 2)) (Finite 0)\<rparr>"

definition farContact :: "double Contact" where
  "farContact =
     \<lparr>normal = Vector3 (Finite 0) (Finite 1) (Finite 0), penetrationDepth = Finite 1,
      localPointOnBody1 = Vector3 (Finite 0) (Finite (DBL_OVERFLOW / 2)) (Finite 0),
      localPointOnBody2 = Vector3 (Finite 0) (Finite (DBL_OVERFLOW / 2)) (Finite 0),
      worldPointOnBody1 = Vector3 (Finite 0) (Finite 1) (Finite 0),
      worldPointOnBody2 = Vector3 (Finite 0) (Finite 0) (Finite 0),
      frictionVectors = [Vector3 (Finite 1) (Finite 0) (Finite 0),
                         Vector3 (Finite 0) (Finite 0) (Finite (- 1))],
      mu_mc_g = Finite 0\<rparr>"

definition farCache :: "double PersistentContactCache" where
  "farCache =
     \<lparr>body1 = 1, body2 = 2, contacts = [30, 0, 0, 0], nbContacts = 1,
      memoryPoolContacts = [], heap = (\<lambda>p. farContact)\<rparr>"


section \<open>Properties\<close>

subsection \<open>Vector algebra\<close>

lemma cross_triple:
  fixes a b :: "real Vector3"
  shows "cross a (cross b a) = minusV (scaleV b (dot a a)) (scaleV a (dot a b))"
  by (simp add: cross_def minusV_def scaleV_def dot_def algebra_simps)

lemma lengthSquare_cross:
  fixes a b :: "real Vector3"
  shows "lengthSquare (cross a b) = lengthSquare a * lengthSquare b - dot a b * dot a b"
  by (simp add: cross_def lengthSquare_def dot_def algebra_simps)

lemma dot_cross_left: "dot a (cross a b) = (0::real)"
  by (simp add: cross_def dot_def algebra_simps)

lemma dot_cross_right: "dot b (cross a b) = (0::real)"
  by (simp add: cross_def dot_def algebra_simps)

lemma lengthV_1_iff: "lengthV a = 1 \<longleftrightarrow> lengthSquare a = 1"
  by (simp add: lengthV_def)

lemma dot_self: "dot a a = lengthSquare a"
  by (simp add: dot_def lengthSquare_def)

lemma lengthSquare_nonneg: "(0::real) \<le> lengthSquare a"
  by (simp add: lengthSquare_def)

lemma lengthSquare_zero:
  assumes "lengthSquare v \<le> (0::real)"
  shows "v = Vector3 0 0 0"
proof (cases v)
  case (Vector3 a b c)
  have "0 \<le> a * a" "0 \<le> b * b" "0 \<le> c * c"
    by simp_all
  moreover have "a * a + b * b + c * c \<le> 0"
    using assms Vector3 by (simp add: lengthSquare_def)
  ultimately have "a * a = 0" "b * b = 0" "c * c = 0"
    by linarith+
  with Vector3 show ?thesis by simp
qed


text \<open>
  \<^verbatim>\<open>computeFrictionVectors\<close> on any contact whose normal has length 1, when
  \<^verbatim>\<open>getOneOrthogonalVector\<close> gives for it a vector of length 1 perpendicular to it.
\<close>

lemma computeFrictionVectors_right_handed:
  assumes "lengthV (normal c0) = 1"
    and "lengthV (getOneOrthogonalVector (normal c0)) = 1"
    and "dot (normal c0) (getOneOrthogonalVector (normal c0)) = 0"
  shows "let c = computeFrictionVectors getOneOrthogonalVector c0 in
           normal c = normal c0 \<and>
           frictionVectors c = [getOneOrthogonalVector (normal c),
                                cross (normal c) (getOneOrthogonalVector (normal c))] \<and>
           cross (frictionVectors c ! 0) (frictionVectors c ! 1) = normal c \<and>
           lengthV (frictionVectors c ! 0) = 1 \<and> lengthV (frictionVectors c ! 1) = 1 \<and>
           dot (frictionVectors c ! 0) (frictionVectors c ! 1) = 0 \<and>
           dot (normal c) (frictionVectors c ! 0) = 0 \<and>
           dot (normal c) (frictionVectors c ! 1) = 0"
proof -
  let ?n = "normal c0"
  let ?t = "getOneOrthogonalVector ?n"
  have n1: "lengthSquare ?n = 1" and t1: "lengthSquare ?t = 1"
    using assms by (simp_all add: lengthV_1_iff)
  have tn: "dot ?t ?n = 0"
    using assms(3) by (simp add: dot_def mult.commute)
  have "cross ?t (cross ?n ?t) = ?n"
    by (simp add: cross_triple dot_self t1 tn minusV_def scaleV_def)
  moreover have "lengthV (cross ?n ?t) = 1"
    by (simp add: lengthV_1_iff lengthSquare_cross n1 t1 assms(3))
  ultimately show ?thesis
    using assms
    by (simp add: computeFrictionVectors_def Let_def dot_cross_left dot_cross_right)
qed

subsection \<open>The loops of the cache\<close>


lemma removeContact_nat:
  "removeContact (int i) s =
     (if i < nbContacts s
      then Some (s\<lparr>memoryPoolContacts := memoryPoolContacts s @ [contacts s ! i],
                   contacts := (if Suc i < nbContacts s
                                then (contacts s)[i := contacts s ! (nbContacts s - 1)]
                                else contacts s),
                   nbContacts := nbContacts s - 1\<rparr>)
      else None)"
  by (auto simp: removeContact_def freeObject_def Let_def)

lemma removeContact_liveSlots:
  assumes "i < nbContacts s" "nbContacts s \<le> length (contacts s)"
    and "removeContact (int i) s = Some s1"
  shows "liveSlots s1 \<subseteq> liveSlots s"
proof
  fix p assume "p \<in> liveSlots s1"
  then obtain j where j: "j < nbContacts s1" "p = contacts s1 ! j"
    by (auto simp: liveSlots_def)
  from assms j have "j < nbContacts s - 1" 
    by (auto simp: removeContact_nat)
  show "p \<in> liveSlots s"
  proof (cases "j = i \<and> Suc i < nbContacts s")
    case True
    with assms j have "p = contacts s ! (nbContacts s - 1)"
      by (auto simp: removeContact_nat)
    with assms(1) show ?thesis by (auto simp: liveSlots_def)
  next
    case False
    with assms j \<open>j < nbContacts s - 1\<close> have "p = contacts s ! j"
      by (auto simp: removeContact_nat split: if_splits)
    with \<open>j < nbContacts s - 1\<close> show ?thesis by (auto simp: liveSlots_def)
  qed
qed

lemma releases_only_refl: "releases_only s s"
  by (simp add: releases_only_def)

lemma releases_only_trans:
  assumes "releases_only s s1" "releases_only s1 s2"
  shows "releases_only s s2"
proof -
  from assms(1) obtain r1 where r1: "memoryPoolContacts s1 = memoryPoolContacts s @ r1"
      "set r1 \<subseteq> liveSlots s" "nbContacts s1 + length r1 = nbContacts s"
    by (auto simp: releases_only_def)
  from assms(2) obtain r2 where r2: "memoryPoolContacts s2 = memoryPoolContacts s1 @ r2"
      "set r2 \<subseteq> liveSlots s1" "nbContacts s2 + length r2 = nbContacts s1"
    by (auto simp: releases_only_def)
  have live: "liveSlots s1 \<subseteq> liveSlots s" "liveSlots s2 \<subseteq> liveSlots s1"
    using assms by (auto simp: releases_only_def)
  have "memoryPoolContacts s2 = memoryPoolContacts s @ (r1 @ r2) \<and>
        set (r1 @ r2) \<subseteq> liveSlots s \<and> nbContacts s2 + length (r1 @ r2) = nbContacts s"
    using r1 r2 live by auto
  then have "\<exists>released. memoryPoolContacts s2 = memoryPoolContacts s @ released \<and>
        set released \<subseteq> liveSlots s \<and> nbContacts s2 + length released = nbContacts s"
    by blast
  with assms live show ?thesis
    by (simp add: releases_only_def) 
qed

lemma removeContact_releases_only:
  assumes "i < nbContacts s" "nbContacts s \<le> length (contacts s)"
    and "removeContact (int i) s = Some s1"
  shows "releases_only s s1"
proof -
  have "contacts s ! i \<in> liveSlots s"
    using assms(1) by (auto simp: liveSlots_def)
  then have "memoryPoolContacts s1 = memoryPoolContacts s @ [contacts s ! i] \<and>
        set [contacts s ! i] \<subseteq> liveSlots s \<and> nbContacts s1 + length [contacts s ! i] = nbContacts s"
    using assms by (auto simp: removeContact_nat)
  then have "\<exists>released. memoryPoolContacts s1 = memoryPoolContacts s @ released \<and>
        set released \<subseteq> liveSlots s \<and> nbContacts s1 + length released = nbContacts s"
    by blast
  moreover have "heap s1 = heap s" "body1 s1 = body1 s" "body2 s1 = body2 s"
    "length (contacts s1) = length (contacts s)" "nbContacts s1 \<le> nbContacts s"
    using assms by (auto simp: removeContact_nat)
  ultimately show ?thesis
    using removeContact_liveSlots [OF assms] by (simp add: releases_only_def)
qed

lemma sweepLoop_releases_only:
  "n \<le> nbContacts s \<Longrightarrow> nbContacts s \<le> length (contacts s) \<Longrightarrow>
   \<exists>s'. sweepLoop threshold n s = Some s' \<and> releases_only s s'"
proof (induction n arbitrary: s)
  case 0
  then show ?case by (simp add: releases_only_refl)
next
  case (Suc i)
  then have i: "i < nbContacts s" by simp
  then obtain s1 where rm: "removeContact (int i) s = Some s1"
    by (simp add: removeContact_nat)
  have step: "releases_only s s1"
    using removeContact_releases_only [OF i Suc.prems(2) rm] .
  have "i \<le> nbContacts s1" "nbContacts s1 \<le> length (contacts s1)"
    using i Suc.prems rm by (auto simp: removeContact_nat)
  from Suc.IH [OF this] obtain s' where "sweepLoop threshold i s1 = Some s'" "releases_only s1 s'"
    by blast
  with rm step have removed:
    "\<exists>s'. (do { s1 \<leftarrow> removeContact (int i) s; sweepLoop threshold i s1 }) = Some s' \<and>
          releases_only s s'"
    by (auto intro: releases_only_trans)
  have kept: "\<exists>s'. sweepLoop threshold i s = Some s' \<and> releases_only s s'"
    using Suc.IH [of s] i Suc.prems(2) by simp
  show ?case
    using i removed kept by (simp add: Let_def)
qed

text \<open>
  What the sweep leaves in the cache has failed both of its removal tests. Nothing is
  assumed of the comparisons: a number for which \<open>d \<le> 0\<close> and \<open>0 < d\<close> are both false
  stays.
\<close>

lemma sweepLoop_survivors:
  "n \<le> nbContacts s \<Longrightarrow> nbContacts s \<le> length (contacts s) \<Longrightarrow>
   sweepLoop threshold n s = Some s' \<Longrightarrow>
   (\<And>j. n \<le> j \<Longrightarrow> j < nbContacts s \<Longrightarrow>
      \<not> getPenetrationDepth (heap s (contacts s ! j)) \<le> 0 \<and>
      \<not> threshold * threshold < tangentialDriftSquare (heap s (contacts s ! j))) \<Longrightarrow>
   j < nbContacts s' \<Longrightarrow>
      \<not> getPenetrationDepth (heap s' (contacts s' ! j)) \<le> 0 \<and>
      \<not> threshold * threshold < tangentialDriftSquare (heap s' (contacts s' ! j))"
proof (induction n arbitrary: s)
  case 0
  then show ?case by simp
next
  case (Suc i)
  let ?ok = "\<lambda>c. \<not> getPenetrationDepth c \<le> 0 \<and> \<not> threshold * threshold < tangentialDriftSquare c"
  have i: "i < nbContacts s" using Suc.prems(1) by simp
  show ?case
  proof (cases "?ok (heap s (contacts s ! i))")
    case True
    then have "sweepLoop threshold i s = Some s'"
      using Suc.prems(3) i by (simp add: Let_def tangentialDriftSquare_def)
    moreover have "?ok (heap s (contacts s ! k))" if "i \<le> k" "k < nbContacts s" for k
      using that True Suc.prems(4) [of k] by (cases "k = i") auto
    ultimately show ?thesis
      using Suc.IH [of s] i Suc.prems(2,5) by simp
  next
    case False
    obtain s1 where rm: "removeContact (int i) s = Some s1"
      using i by (simp add: removeContact_nat)
    have sw: "sweepLoop threshold i s1 = Some s'"
      using False Suc.prems(3) i rm
      by (auto simp: Let_def tangentialDriftSquare_def split: if_splits)
    have s1: "nbContacts s1 = nbContacts s - 1" "heap s1 = heap s"
      "contacts s1 = (if Suc i < nbContacts s
                      then (contacts s)[i := contacts s ! (nbContacts s - 1)] else contacts s)"
      using rm i by (auto simp: removeContact_nat)
    have "?ok (heap s1 (contacts s1 ! k))" if k: "i \<le> k" "k < nbContacts s1" for k
    proof (cases "k = i")
      case True
      with k s1 Suc.prems(2) have "contacts s1 ! k = contacts s ! (nbContacts s - 1)"
        by auto
      moreover have "Suc i \<le> nbContacts s - 1" "nbContacts s - 1 < nbContacts s"
        using k True s1 by auto
      ultimately show ?thesis
        using Suc.prems(4) [of "nbContacts s - 1"] s1(2) by simp
    next
      case False
      with k s1 have "contacts s1 ! k = contacts s ! k" "Suc i \<le> k" "k < nbContacts s"
        by auto
      then show ?thesis
        using Suc.prems(4) [of k] s1(2) by simp
    qed
    moreover have "i \<le> nbContacts s1" "nbContacts s1 \<le> length (contacts s1)"
      using i s1 Suc.prems(2) by auto
    ultimately show ?thesis
      using Suc.IH [of s1] sw Suc.prems(5) by simp
  qed
qed

lemma refreshContact_fields:
  "getLocalPointOnBody1 (refreshContact t1 t2 c) = getLocalPointOnBody1 c"
  "getLocalPointOnBody2 (refreshContact t1 t2 c) = getLocalPointOnBody2 c"
  "getNormal (refreshContact t1 t2 c) = getNormal c"
  "getWorldPointOnBody1 (refreshContact t1 t2 c) = applyTransform t1 (getLocalPointOnBody1 c)"
  "getWorldPointOnBody2 (refreshContact t1 t2 c) = applyTransform t2 (getLocalPointOnBody2 c)"
  "getPenetrationDepth (refreshContact t1 t2 c) =
     dot (minusV (applyTransform t1 (getLocalPointOnBody1 c))
                 (applyTransform t2 (getLocalPointOnBody2 c))) (getNormal c)"
  by (simp_all add: refreshContact_def Let_def getLocalPointOnBody1_def getLocalPointOnBody2_def
        getNormal_def getWorldPointOnBody1_def getWorldPointOnBody2_def getPenetrationDepth_def
        setWorldPointOnBody1_def setWorldPointOnBody2_def setPenetrationDepth_def)

lemma refreshContact_idem:
  "refreshContact t1 t2 (refreshContact t1 t2 c) = refreshContact t1 t2 c"
  by (simp add: refreshContact_def Let_def getLocalPointOnBody1_def getLocalPointOnBody2_def
        getNormal_def getWorldPointOnBody1_def getWorldPointOnBody2_def getPenetrationDepth_def
        setWorldPointOnBody1_def setWorldPointOnBody2_def setPenetrationDepth_def)

lemma refreshLoop_frame:
  "contacts (refreshLoop t1 t2 s is) = contacts s \<and>
   nbContacts (refreshLoop t1 t2 s is) = nbContacts s \<and>
   memoryPoolContacts (refreshLoop t1 t2 s is) = memoryPoolContacts s \<and>
   body1 (refreshLoop t1 t2 s is) = body1 s \<and> body2 (refreshLoop t1 t2 s is) = body2 s"
  by (induction "is" arbitrary: s) simp_all

lemma refreshLoop_heap:
  "heap (refreshLoop t1 t2 s is) p =
     (if p \<in> (\<lambda>i. contacts s ! i) ` set is then refreshContact t1 t2 (heap s p) else heap s p)"
proof (induction "is" arbitrary: s)
  case Nil
  then show ?case by simp
next
  case (Cons i "is")
  let ?s1 = "s\<lparr>heap := (heap s)(contacts s ! i := refreshContact t1 t2 (heap s (contacts s ! i)))\<rparr>"
  have "heap (refreshLoop t1 t2 s (i # is)) p = heap (refreshLoop t1 t2 ?s1 is) p"
    by simp
  also have "\<dots> = (if p \<in> (\<lambda>i. contacts s ! i) ` set is
                    then refreshContact t1 t2 (heap ?s1 p) else heap ?s1 p)"
    by (simp add: Cons.IH)
  also have "\<dots> = (if p \<in> (\<lambda>i. contacts s ! i) ` set (i # is)
                    then refreshContact t1 t2 (heap s p) else heap s p)"
    by (auto simp: refreshContact_idem)
  finally show ?case .
qed

lemma liveSlots_refreshLoop: "liveSlots (refreshLoop t1 t2 s is) = liveSlots s"
  by (simp add: liveSlots_def refreshLoop_frame)

lemma update_result:
  assumes "well_formed s"
  shows "\<exists>s'. update threshold t1 t2 s = Some s' \<and> well_formed s' \<and>
              body1 s' = body1 s \<and> body2 s' = body2 s \<and>
              nbContacts s' \<le> nbContacts s \<and> liveSlots s' \<subseteq> liveSlots s \<and>
              (\<forall>p. heap s' p = (if p \<in> liveSlots s then refreshContact t1 t2 (heap s p)
                                else heap s p)) \<and>
              (\<exists>released. memoryPoolContacts s' = memoryPoolContacts s @ released \<and>
                          set released \<subseteq> liveSlots s \<and>
                          nbContacts s' + length released = nbContacts s)"
proof (cases "nbContacts s = 0")
  case True
  then have "liveSlots s = {}" by (simp add: liveSlots_def)
  with True assms show ?thesis by (simp add: update_def)
next
  case False
  let ?s1 = "refreshLoop t1 t2 s [0..<nbContacts s]"
  have "nbContacts ?s1 \<le> nbContacts ?s1" "nbContacts ?s1 \<le> length (contacts ?s1)"
    using assms by (simp_all add: refreshLoop_frame well_formed_def)
  from sweepLoop_releases_only [OF this] obtain s' where
    s': "sweepLoop threshold (nbContacts ?s1) ?s1 = Some s'" "releases_only ?s1 s'"
    by blast
  have "update threshold t1 t2 s = Some s'"
    using False s'(1) by (simp add: update_def Let_def)
  moreover have "heap s' p = (if p \<in> liveSlots s then refreshContact t1 t2 (heap s p) else heap s p)" for p
    using s'(2) by (simp add: releases_only_def refreshLoop_heap liveSlots_def atLeast0LessThan)
  ultimately show ?thesis
    using s'(2) assms
    by (simp add: releases_only_def refreshLoop_frame liveSlots_refreshLoop well_formed_def)
qed

lemma update_survivors:
  assumes "well_formed s"
  shows "\<exists>s'. update threshold transform1 transform2 s = Some s' \<and>
           (\<forall>i<nbContacts s'.
              \<not> getPenetrationDepth (heap s' (contacts s' ! i)) \<le> 0 \<and>
              \<not> threshold * threshold < tangentialDriftSquare (heap s' (contacts s' ! i)))"
proof (cases "nbContacts s = 0")
  case True
  then show ?thesis by (simp add: update_def)
next
  case False
  let ?s1 = "refreshLoop transform1 transform2 s [0..<nbContacts s]"
  have bounds: "nbContacts ?s1 \<le> nbContacts ?s1" "nbContacts ?s1 \<le> length (contacts ?s1)"
    using assms by (simp_all add: refreshLoop_frame well_formed_def)
  from sweepLoop_releases_only [OF this] obtain s' where
    s': "sweepLoop threshold (nbContacts ?s1) ?s1 = Some s'"
    by blast
  have "\<not> getPenetrationDepth (heap s' (contacts s' ! i)) \<le> 0 \<and>
        \<not> threshold * threshold < tangentialDriftSquare (heap s' (contacts s' ! i))"
    if "i < nbContacts s'" for i
    using sweepLoop_survivors [OF bounds s' _ that] by simp
  moreover have "update threshold transform1 transform2 s = Some s'"
    using False s' by (simp add: update_def Let_def)
  ultimately show ?thesis by simp
qed

text \<open>
  Where the numbers are totally ordered (the reals, or doubles without NaN), the two
  failed tests say that the depth is positive and the drift within the threshold.
\<close>

lemma update_survivors_linorder:
  fixes threshold :: "'a::{zero,plus,minus,times,linorder}"
  assumes "well_formed s"
  shows "\<exists>s'. update threshold transform1 transform2 s = Some s' \<and>
           (\<forall>i<nbContacts s'.
              0 < getPenetrationDepth (heap s' (contacts s' ! i)) \<and>
              tangentialDriftSquare (heap s' (contacts s' ! i)) \<le> threshold * threshold)"
  using update_survivors [OF assms, of threshold transform1 transform2]
  by (simp add: not_le not_less)

text \<open>For doubles, two numbers are comparable exactly when neither is NaN.\<close>

lemma double_comparable_zero: "(d \<le> 0 \<or> 0 \<le> d) \<longleftrightarrow> d \<noteq> NaN"
  by (cases d) (auto simp: zero_double_def)

lemma double_comparable: "(a \<le> b \<or> b < a) \<longleftrightarrow> a \<noteq> NaN \<and> b \<noteq> NaN"
  by (cases a; cases b) auto

text \<open>
  The refresh of the far contact, step by step: the lifted height overflows, the
  difference of the two world points is \<open>\<infinity> - \<infinity>\<close>.
\<close>

lemma DBL_OVERFLOW_large: "1 < DBL_OVERFLOW"
  by (simp add: DBL_OVERFLOW_def)

lemma overflow_small: "\<bar>x\<bar> \<le> 1 \<Longrightarrow> overflow x = Finite x"
  using DBL_OVERFLOW_large by (auto simp: overflow_def)

lemma overflow_half: "overflow (DBL_OVERFLOW / 2) = Finite (DBL_OVERFLOW / 2)"
  using DBL_OVERFLOW_large by (auto simp: overflow_def)

lemma overflow_full: "overflow DBL_OVERFLOW = PlusInfinity"
  by (simp add: overflow_def)

lemma far_world_point:
  "applyTransform farTransform (Vector3 (Finite 0) (Finite (DBL_OVERFLOW / 2)) (Finite 0))
     = Vector3 (Finite 0) PlusInfinity (Finite 0)"
  by (simp add: applyTransform_def farTransform_def mulMV_def plusV_def dot_def
        overflow_small overflow_half overflow_full)

lemma far_refreshed:
  "refreshContact farTransform farTransform farContact =
     farContact\<lparr>worldPointOnBody1 := Vector3 (Finite 0) PlusInfinity (Finite 0),
                worldPointOnBody2 := Vector3 (Finite 0) PlusInfinity (Finite 0),
                penetrationDepth := NaN\<rparr>"
  by (simp add: refreshContact_def Let_def farContact_def far_world_point
        getLocalPointOnBody1_def getLocalPointOnBody2_def getWorldPointOnBody1_def
        getWorldPointOnBody2_def getNormal_def setWorldPointOnBody1_def
        setWorldPointOnBody2_def setPenetrationDepth_def
        minusV_def dot_def minus_double_def overflow_small)

lemma far_normal: "normal farContact = Vector3 (Finite 0) (Finite 1) (Finite 0)"
  by (simp add: farContact_def)

lemma far_update:
  "update (Finite recommendedThreshold) farTransform farTransform farCache =
     Some (farCache\<lparr>heap := (heap farCache)
       (30 := farContact\<lparr>worldPointOnBody1 := Vector3 (Finite 0) PlusInfinity (Finite 0),
                worldPointOnBody2 := Vector3 (Finite 0) PlusInfinity (Finite 0),
                penetrationDepth := NaN\<rparr>)\<rparr>)"
  by (simp add: update_def Let_def farCache_def far_refreshed far_normal zero_double_def
        getPenetrationDepth_def getWorldPointOnBody1_def getWorldPointOnBody2_def getNormal_def
        minusV_def scaleV_def lengthSquare_def minus_double_def
        recommendedThreshold_def overflow_small)

lemma duplicateLoop_iff:
  "duplicateLoop isApproxEqual contact s is \<longleftrightarrow>
     (\<exists>i\<in>set is. isApproxEqual (getLocalPointOnBody1 (heap s contact))
                               (getLocalPointOnBody1 (heap s (contacts s ! i))))"
  by (induction "is") auto

lemma deepestLoop_append:
  "deepestLoop s (xs @ ys) acc = deepestLoop s ys (deepestLoop s xs acc)"
  by (induction s xs acc rule: deepestLoop.induct) auto

lemma deepestLoop_upt:
  fixes d0 mx :: "'a::linorder"
  assumes "deepestLoop s [0..<n] (- 1, d0) = (idx, mx)"
  shows "(idx = - 1 \<and> mx = d0 \<and> (\<forall>i<n. getPenetrationDepth (heap s (contacts s ! i)) \<le> d0)) \<or>
         (0 \<le> idx \<and> nat idx < n \<and> d0 < mx \<and>
          mx = getPenetrationDepth (heap s (contacts s ! nat idx)) \<and>
          (\<forall>i<n. getPenetrationDepth (heap s (contacts s ! i)) \<le> mx) \<and>
          (\<forall>j<nat idx. getPenetrationDepth (heap s (contacts s ! j)) < mx))"
  using assms
proof (induction n arbitrary: idx mx)
  case 0
  then show ?case by simp
next
  case (Suc n)
  obtain idx0 mx0 where prev: "deepestLoop s [0..<n] (- 1, d0) = (idx0, mx0)"
    by (cases "deepestLoop s [0..<n] (- 1, d0)") auto
  note IH = Suc.IH [OF prev]
  show ?case
  proof (cases "getPenetrationDepth (heap s (contacts s ! n)) > mx0")
    case True
    with Suc.prems prev have "idx = int n" "mx = getPenetrationDepth (heap s (contacts s ! n))"
      by (simp_all add: deepestLoop_append)
    with IH True show ?thesis
      by (auto simp: less_Suc_eq)
  next
    case False
    with Suc.prems prev have "idx = idx0" "mx = mx0"
      by (simp_all add: deepestLoop_append)
    with IH False show ?thesis
      by (auto simp: less_Suc_eq)
  qed
qed

lemma getMaxArea_range: "0 \<le> getMaxArea a0 a1 a2 a3 \<and> getMaxArea a0 a1 a2 a3 < 4"
  by (simp add: getMaxArea_def)

lemma getIndexToRemove_range:
  assumes "nbContacts s = MAX_CONTACTS_IN_CACHE"
  shows "\<exists>k<MAX_CONTACTS_IN_CACHE. getIndexToRemove indexMaxPenetration newPoint s = Some (int k)"
proof -
  from assms obtain r where r: "getIndexToRemove indexMaxPenetration newPoint s = Some r"
    "0 \<le> r \<and> r < 4"
    by (auto simp: getIndexToRemove_def Let_def getMaxArea_range)
  then have "nat r < MAX_CONTACTS_IN_CACHE" "r = int (nat r)"
    by (auto simp: MAX_CONTACTS_IN_CACHE_def)
  with r(1) show ?thesis by metis
qed

lemma getMaxArea_zero_score:
  fixes a0 a1 a2 a3 :: real
  assumes "0 \<le> a0" "0 \<le> a1" "0 \<le> a2" "0 \<le> a3"
    and "[a0, a1, a2, a3] ! nat (getMaxArea a0 a1 a2 a3) = 0"
  shows "getMaxArea a0 a1 a2 a3 = 0 \<and> a0 = 0 \<and> a1 = 0 \<and> a2 = 0 \<and> a3 = 0"
  using assms by (auto simp: getMaxArea_def split: if_splits)

text \<open>
  The index protected by \<^verbatim>\<open>getIndexToRemove\<close> is returned only when it is 0 and the
  three other scores are 0 as well, that is when the three cross products vanish.
\<close>

lemma getIndexToRemove_protected:
  fixes newPoint :: "real Vector3"
  assumes "nbContacts s = MAX_CONTACTS_IN_CACHE"
    and "getIndexToRemove indexMaxPenetration newPoint s = Some indexMaxPenetration"
  shows "indexMaxPenetration = 0 \<and>
         cross (minusV newPoint (getLocalPointOnBody1 (heap s (contacts s ! 0))))
               (minusV (getLocalPointOnBody1 (heap s (contacts s ! 3)))
                       (getLocalPointOnBody1 (heap s (contacts s ! 2)))) = Vector3 0 0 0 \<and>
         cross (minusV newPoint (getLocalPointOnBody1 (heap s (contacts s ! 0))))
               (minusV (getLocalPointOnBody1 (heap s (contacts s ! 3)))
                       (getLocalPointOnBody1 (heap s (contacts s ! 1)))) = Vector3 0 0 0 \<and>
         cross (minusV newPoint (getLocalPointOnBody1 (heap s (contacts s ! 0))))
               (minusV (getLocalPointOnBody1 (heap s (contacts s ! 2)))
                       (getLocalPointOnBody1 (heap s (contacts s ! 1)))) = Vector3 0 0 0"
proof -
  define p where "p = (\<lambda>i. getLocalPointOnBody1 (heap s (contacts s ! i)))"
  define a0 where "a0 = (if indexMaxPenetration \<noteq> 0
      then lengthSquare (cross (minusV newPoint (p 1)) (minusV (p 3) (p 2))) else 0)"
  define a1 where "a1 = (if indexMaxPenetration \<noteq> 1
      then lengthSquare (cross (minusV newPoint (p 0)) (minusV (p 3) (p 2))) else 0)"
  define a2 where "a2 = (if indexMaxPenetration \<noteq> 2
      then lengthSquare (cross (minusV newPoint (p 0)) (minusV (p 3) (p 1))) else 0)"
  define a3 where "a3 = (if indexMaxPenetration \<noteq> 3
      then lengthSquare (cross (minusV newPoint (p 0)) (minusV (p 2) (p 1))) else 0)"
  have nonneg: "0 \<le> a0" "0 \<le> a1" "0 \<le> a2" "0 \<le> a3"
    by (simp_all add: a0_def a1_def a2_def a3_def lengthSquare_nonneg)
  have "getIndexToRemove indexMaxPenetration newPoint s = Some (getMaxArea a0 a1 a2 a3)"
    unfolding getIndexToRemove_def Let_def p_def a0_def a1_def a2_def a3_def
    by (simp only: assms(1) simp_thms if_False)
  with assms(2) have res: "getMaxArea a0 a1 a2 a3 = indexMaxPenetration"
    by simp
  have range: "0 \<le> getMaxArea a0 a1 a2 a3" "getMaxArea a0 a1 a2 a3 < 4"
    using getMaxArea_range [of a0 a1 a2 a3] by simp_all
  then consider "indexMaxPenetration = 0" | "indexMaxPenetration = 1"
    | "indexMaxPenetration = 2" | "indexMaxPenetration = 3"
    unfolding res by linarith
  then have "[a0, a1, a2, a3] ! nat (getMaxArea a0 a1 a2 a3) = 0"
    unfolding res by cases (simp_all add: a0_def a1_def a2_def a3_def)
  from getMaxArea_zero_score [OF nonneg this]
  have "indexMaxPenetration = 0" "a1 = 0" "a2 = 0" "a3 = 0"
    unfolding res by simp_all
  then show ?thesis
    by (simp add: a1_def a2_def a3_def p_def lengthSquare_zero)
qed

lemma addContact_full:
  assumes wf: "well_formed s" and full: "nbContacts s = MAX_CONTACTS_IN_CACHE"
    and fresh: "\<not> duplicateLoop isApproxEqual contact s [0..<nbContacts s]"
    and idx: "getIndexOfDeepestPenetration contact s = Some indexMaxPenetration"
    and k: "getIndexToRemove indexMaxPenetration (getLocalPointOnBody1 (heap s contact)) s
              = Some (int k)" "k < MAX_CONTACTS_IN_CACHE"
  shows "addContact isApproxEqual contact s =
           Some (s\<lparr>memoryPoolContacts := memoryPoolContacts s @ [contacts s ! k],
                   contacts := (contacts s)[k := contact]\<rparr>)"
proof -
  have len: "length (contacts s) = MAX_CONTACTS_IN_CACHE"
    using wf by (simp add: well_formed_def)
  have "(if Suc k < nbContacts s then (contacts s)[k := contacts s ! (nbContacts s - 1)]
         else contacts s)[k := contact] = (contacts s)[k := contact]"
    by simp
  then show ?thesis
    using fresh full idx k
    by (simp add: addContact_def removeContact_nat MAX_CONTACTS_IN_CACHE_def)
qed


lemma getIndexOfDeepestPenetration_Some:
  assumes "nbContacts s = MAX_CONTACTS_IN_CACHE"
  shows "\<exists>r. getIndexOfDeepestPenetration newContact s = Some r"
  using assms by (simp add: getIndexOfDeepestPenetration_def)

lemma clearLoop_frame:
  "contacts (clearLoop s is) = contacts s \<and> nbContacts (clearLoop s is) = nbContacts s \<and>
   heap (clearLoop s is) = heap s \<and>
   memoryPoolContacts (clearLoop s is) = memoryPoolContacts s @ map (\<lambda>i. contacts s ! i) is"
  by (induction "is" arbitrary: s) (simp_all add: freeObject_def)

lemma clear_well_formed: "well_formed s \<Longrightarrow> well_formed (clear s)"
  by (simp add: clear_def well_formed_def clearLoop_frame)

lemma addContact_well_formed:
  assumes "well_formed s"
  shows "\<exists>s'. addContact isApproxEqual contact s = Some s' \<and> well_formed s'"
proof (cases "duplicateLoop isApproxEqual contact s [0..<nbContacts s]")
  case True
  with assms show ?thesis
    by (simp add: addContact_def freeObject_def well_formed_def)
next
  case False
  show ?thesis
  proof (cases "nbContacts s = MAX_CONTACTS_IN_CACHE")
    case True
    from getIndexOfDeepestPenetration_Some [OF True] obtain r where
      r: "getIndexOfDeepestPenetration contact s = Some r" by blast
    from getIndexToRemove_range [OF True] obtain k where
      k: "k < MAX_CONTACTS_IN_CACHE"
         "getIndexToRemove r (getLocalPointOnBody1 (heap s contact)) s = Some (int k)"
      by blast
    show ?thesis
      using addContact_full [OF assms True False r k(2,1)] assms
      by (simp add: well_formed_def)
  next
    case notfull: False
    with False assms show ?thesis
      by (simp add: addContact_def well_formed_def)
  qed
qed

lemma update_well_formed:
  assumes "well_formed s"
  shows "\<exists>s'. update threshold transform1 transform2 s = Some s' \<and> well_formed s'"
  using update_result [OF assms, of threshold transform1 transform2] by blast

lemma apply_operation_well_formed:
  assumes "well_formed s"
  shows "\<exists>s'. apply_operation threshold isApproxEqual operation s = Some s' \<and> well_formed s'"
proof (cases operation)
  case (Add p c)
  have "well_formed (s\<lparr>heap := (heap s)(p := c)\<rparr>)"
    using assms by (simp add: well_formed_def)
  from addContact_well_formed [OF this] Add show ?thesis by simp
next
  case (Update transform1 transform2)
  with update_well_formed [OF assms] show ?thesis by simp
next
  case Clear
  with clear_well_formed [OF assms] show ?thesis by simp
qed

lemma apply_operations_well_formed:
  "well_formed s \<Longrightarrow>
   \<exists>s'. apply_operations threshold isApproxEqual operations s = Some s' \<and> well_formed s'"
proof (induction operations arbitrary: s)
  case Nil
  then show ?case by simp
next
  case (Cons operation rest)
  from apply_operation_well_formed [OF Cons.prems] obtain s1 where
    s1: "apply_operation threshold isApproxEqual operation s = Some s1" "well_formed s1"
    by blast
  from Cons.IH [OF s1(2)] s1(1) show ?case by simp
qed

subsection \<open>The claims\<close>




text \<open>
  C3 (as amended): for every well-formed cache, every threshold and every pair of
  transforms, \<^verbatim>\<open>update\<close> returns, and for every contact in a live slot of the result
  both removal tests of the sweep are false: its penetration depth is not \<open>\<le> 0\<close> and
  its squared tangential drift is not greater than the square of the threshold. So the
  depth is at least 0 whenever it is comparable with 0, and the squared drift is at most
  the square of the threshold whenever the two are comparable. For a double, to be
  comparable is not to be NaN (lemmas \<open>double_comparable_zero\<close>, \<open>double_comparable\<close>).
\<close>

theorem update_survivors_pass_tests:
  assumes "well_formed s"
  shows "\<exists>s'. update PERSISTENT_CONTACT_DIST_THRESHOLD transform1 transform2 s = Some s' \<and>
           (\<forall>i<nbContacts s'.
              \<not> getPenetrationDepth (heap s' (contacts s' ! i)) \<le> 0 \<and>
              \<not> PERSISTENT_CONTACT_DIST_THRESHOLD * PERSISTENT_CONTACT_DIST_THRESHOLD
                  < tangentialDriftSquare (heap s' (contacts s' ! i)) \<and>
              (getPenetrationDepth (heap s' (contacts s' ! i)) \<le> 0 \<or>
               0 \<le> getPenetrationDepth (heap s' (contacts s' ! i))
                 \<longrightarrow> 0 \<le> getPenetrationDepth (heap s' (contacts s' ! i))) \<and>
              (tangentialDriftSquare (heap s' (contacts s' ! i))
                 \<le> PERSISTENT_CONTACT_DIST_THRESHOLD * PERSISTENT_CONTACT_DIST_THRESHOLD \<or>
               PERSISTENT_CONTACT_DIST_THRESHOLD * PERSISTENT_CONTACT_DIST_THRESHOLD
                 < tangentialDriftSquare (heap s' (contacts s' ! i))
                 \<longrightarrow> tangentialDriftSquare (heap s' (contacts s' ! i))
                       \<le> PERSISTENT_CONTACT_DIST_THRESHOLD * PERSISTENT_CONTACT_DIST_THRESHOLD))"
proof -
  from update_survivors [OF assms, of PERSISTENT_CONTACT_DIST_THRESHOLD transform1 transform2]
  obtain s' where s': "update PERSISTENT_CONTACT_DIST_THRESHOLD transform1 transform2 s = Some s'"
    and tests: "\<And>i. i < nbContacts s' \<Longrightarrow>
        \<not> getPenetrationDepth (heap s' (contacts s' ! i)) \<le> 0 \<and>
        \<not> PERSISTENT_CONTACT_DIST_THRESHOLD * PERSISTENT_CONTACT_DIST_THRESHOLD
            < tangentialDriftSquare (heap s' (contacts s' ! i))"
    by blast
  show ?thesis
    using s' tests by blast
qed

theorem update_survivors_pass_tests_witness:
  "well_formed exampleCache \<and>
   (\<exists>s'. update recommendedThreshold identityTransform identityTransform exampleCache = Some s' \<and>
         nbContacts s' = 2 \<and> contacts s' = [10, 12, 12, 13] \<and>
         getPenetrationDepth (heap s' 10) = 1 / 100 \<and>
         tangentialDriftSquare (heap s' 10) = 0 \<and>
         0 \<le> getPenetrationDepth (heap s' 10) \<and>
         tangentialDriftSquare (heap s' 10) \<le> recommendedThreshold * recommendedThreshold \<and>
         \<not> getPenetrationDepth (heap s' 12) \<le> 0 \<and>
         \<not> recommendedThreshold * recommendedThreshold < tangentialDriftSquare (heap s' 12))"
proof -
  have wf: "well_formed exampleCache"
    by (simp add: well_formed_def exampleCache_def MAX_CONTACTS_IN_CACHE_def)
  have ev: "map_option (\<lambda>s'. (nbContacts s', contacts s', getPenetrationDepth (heap s' 10),
                tangentialDriftSquare (heap s' 10)))
              (update recommendedThreshold identityTransform identityTransform exampleCache)
            = Some (2, [10, 12, 12, 13], 1 / 100, 0)"
    by code_simp
  from update_survivors_pass_tests [OF wf, of recommendedThreshold identityTransform identityTransform]
  obtain s' where
    s': "update recommendedThreshold identityTransform identityTransform exampleCache = Some s'"
    and ok: "\<forall>i<nbContacts s'.
              \<not> getPenetrationDepth (heap s' (contacts s' ! i)) \<le> 0 \<and>
              \<not> recommendedThreshold * recommendedThreshold
                  < tangentialDriftSquare (heap s' (contacts s' ! i)) \<and>
              (getPenetrationDepth (heap s' (contacts s' ! i)) \<le> 0 \<or>
               0 \<le> getPenetrationDepth (heap s' (contacts s' ! i))
                 \<longrightarrow> 0 \<le> getPenetrationDepth (heap s' (contacts s' ! i))) \<and>
              (tangentialDriftSquare (heap s' (contacts s' ! i))
                 \<le> recommendedThreshold * recommendedThreshold \<or>
               recommendedThreshold * recommendedThreshold
                 < tangentialDriftSquare (heap s' (contacts s' ! i))
                 \<longrightarrow> tangentialDriftSquare (heap s' (contacts s' ! i))
                       \<le> recommendedThreshold * recommendedThreshold)"
    by blast
  from ev s' have shape: "nbContacts s' = 2" "contacts s' = [10, 12, 12, 13]"
    and at10_values: "getPenetrationDepth (heap s' 10) = 1 / 100"
      "tangentialDriftSquare (heap s' 10) = 0"
    by simp_all
  have slots: "(0::nat) < nbContacts s'" "contacts s' ! 0 = 10"
    "(1::nat) < nbContacts s'" "contacts s' ! 1 = 12"
    using shape by simp_all
  have comparable: "getPenetrationDepth (heap s' 10) \<le> 0 \<or> 0 \<le> getPenetrationDepth (heap s' 10)"
    "tangentialDriftSquare (heap s' 10) \<le> recommendedThreshold * recommendedThreshold \<or>
     recommendedThreshold * recommendedThreshold < tangentialDriftSquare (heap s' 10)"
    using at10_values by (simp_all add: recommendedThreshold_def)
  from ok slots(1) have
    "(getPenetrationDepth (heap s' (contacts s' ! 0)) \<le> 0 \<or>
       0 \<le> getPenetrationDepth (heap s' (contacts s' ! 0))
        \<longrightarrow> 0 \<le> getPenetrationDepth (heap s' (contacts s' ! 0))) \<and>
     (tangentialDriftSquare (heap s' (contacts s' ! 0))
         \<le> recommendedThreshold * recommendedThreshold \<or>
       recommendedThreshold * recommendedThreshold
         < tangentialDriftSquare (heap s' (contacts s' ! 0))
        \<longrightarrow> tangentialDriftSquare (heap s' (contacts s' ! 0))
              \<le> recommendedThreshold * recommendedThreshold)"
    by blast
  with comparable have at10: "0 \<le> getPenetrationDepth (heap s' 10)"
    "tangentialDriftSquare (heap s' 10) \<le> recommendedThreshold * recommendedThreshold"
    unfolding slots(2) by blast+
  from ok slots(3) have
    "\<not> getPenetrationDepth (heap s' (contacts s' ! 1)) \<le> 0 \<and>
     \<not> recommendedThreshold * recommendedThreshold
         < tangentialDriftSquare (heap s' (contacts s' ! 1))"
    by blast
  then have at12: "\<not> getPenetrationDepth (heap s' 12) \<le> 0"
    "\<not> recommendedThreshold * recommendedThreshold < tangentialDriftSquare (heap s' 12)"
    unfolding slots(4) by blast+
  from wf s' shape at10_values at10 at12 show ?thesis
    by blast
qed

text \<open>
  C3 as stated fails. A single cached contact with normal (0, 1, 0) and both local
  points at height \<open>2 ^ 1023\<close>, refreshed with two transforms that lift by \<open>2 ^ 1023\<close>
  (finite doubles, all of them):
  both world points are at height \<open>+\<infinity>\<close>, the depth is \<open>\<infinity> - \<infinity>\<close>, NaN; neither
  \<open>depth \<le> 0\<close> nor \<open>drift > threshold\<^sup>2\<close> holds of NaN, so the contact stays live with a
  depth that is not \<open>\<ge> 0\<close>.
\<close>

theorem update_keeps_NaN_depth_counterexample:
  "well_formed farCache \<and> nbContacts farCache = 1 \<and>
   map_option nbContacts
     (update (Finite recommendedThreshold) farTransform farTransform farCache) = Some 1 \<and>
   map_option livePenetrationDepths
     (update (Finite recommendedThreshold) farTransform farTransform farCache) = Some [NaN] \<and>
   \<not> (0::double) \<le> NaN"
  unfolding far_update
  by (simp add: well_formed_def farCache_def MAX_CONTACTS_IN_CACHE_def
        livePenetrationDepths_def getPenetrationDepth_def zero_double_def)

text \<open>
  C6: for every well-formed cache and every pair of transforms, \<^verbatim>\<open>update\<close> returns,
  and for every contact in a live slot of the result the world point on body 1 is the
  first transform applied to its local point on body 1, the world point on body 2 is the
  second transform applied to its local point on body 2, and the penetration depth is
  the dot product of (world point 1 minus world point 2) with the normal.
\<close>

theorem update_refreshes_survivors:
  assumes "well_formed s"
  shows "\<exists>s'. update PERSISTENT_CONTACT_DIST_THRESHOLD transform1 transform2 s = Some s' \<and>
           (\<forall>i<nbContacts s'.
              getWorldPointOnBody1 (heap s' (contacts s' ! i))
                = applyTransform transform1 (getLocalPointOnBody1 (heap s' (contacts s' ! i))) \<and>
              getWorldPointOnBody2 (heap s' (contacts s' ! i))
                = applyTransform transform2 (getLocalPointOnBody2 (heap s' (contacts s' ! i))) \<and>
              getPenetrationDepth (heap s' (contacts s' ! i))
                = dot (minusV (getWorldPointOnBody1 (heap s' (contacts s' ! i)))
                              (getWorldPointOnBody2 (heap s' (contacts s' ! i))))
                      (getNormal (heap s' (contacts s' ! i))))"
proof -
  from update_result [OF assms, of PERSISTENT_CONTACT_DIST_THRESHOLD transform1 transform2] obtain s' where
    s': "update PERSISTENT_CONTACT_DIST_THRESHOLD transform1 transform2 s = Some s'" "liveSlots s' \<subseteq> liveSlots s"
      "\<And>p. heap s' p = (if p \<in> liveSlots s then refreshContact transform1 transform2 (heap s p)
                                else heap s p)"
    by blast
  have "heap s' (contacts s' ! i) = refreshContact transform1 transform2 (heap s (contacts s' ! i))"
    if "i < nbContacts s'" for i
  proof -
    from that have "contacts s' ! i \<in> liveSlots s'" by (auto simp: liveSlots_def)
    with s'(2,3) show ?thesis by auto
  qed
  with s'(1) show ?thesis
    by (simp add: refreshContact_fields)
qed

theorem update_refreshes_survivors_witness:
  "well_formed exampleCache \<and>
   (\<exists>s'. update recommendedThreshold identityTransform liftTransform exampleCache = Some s' \<and>
         nbContacts s' = 2 \<and> contacts s' = [10, 12, 12, 13] \<and>
         getWorldPointOnBody1 (heap s' 12)
           = applyTransform identityTransform (getLocalPointOnBody1 (heap s' 12)) \<and>
         getWorldPointOnBody2 (heap s' 12)
           = applyTransform liftTransform (getLocalPointOnBody2 (heap s' 12)) \<and>
         getPenetrationDepth (heap s' 12)
           = dot (minusV (getWorldPointOnBody1 (heap s' 12)) (getWorldPointOnBody2 (heap s' 12)))
                 (getNormal (heap s' 12)))"
proof -
  have wf: "well_formed exampleCache"
    by (simp add: well_formed_def exampleCache_def MAX_CONTACTS_IN_CACHE_def)
  have ev: "map_option (\<lambda>s'. (nbContacts s', contacts s'))
              (update recommendedThreshold identityTransform liftTransform exampleCache)
            = Some (2, [10, 12, 12, 13])"
    by code_simp
  from update_refreshes_survivors [OF wf, of recommendedThreshold identityTransform liftTransform]
  obtain s' where s': "update recommendedThreshold identityTransform liftTransform exampleCache = Some s'"
    and ok: "\<forall>i<nbContacts s'.
              getWorldPointOnBody1 (heap s' (contacts s' ! i))
                = applyTransform identityTransform (getLocalPointOnBody1 (heap s' (contacts s' ! i))) \<and>
              getWorldPointOnBody2 (heap s' (contacts s' ! i))
                = applyTransform liftTransform (getLocalPointOnBody2 (heap s' (contacts s' ! i))) \<and>
              getPenetrationDepth (heap s' (contacts s' ! i))
                = dot (minusV (getWorldPointOnBody1 (heap s' (contacts s' ! i)))
                              (getWorldPointOnBody2 (heap s' (contacts s' ! i))))
                      (getNormal (heap s' (contacts s' ! i)))"
    by blast
  from ev s' have shape: "nbContacts s' = 2" "contacts s' = [10, 12, 12, 13]"
    by simp_all
  then have slot: "(1::nat) < nbContacts s'" "contacts s' ! 1 = 12"
    by simp_all
  from ok slot(1) have
    "getWorldPointOnBody1 (heap s' (contacts s' ! 1))
       = applyTransform identityTransform (getLocalPointOnBody1 (heap s' (contacts s' ! 1))) \<and>
     getWorldPointOnBody2 (heap s' (contacts s' ! 1))
       = applyTransform liftTransform (getLocalPointOnBody2 (heap s' (contacts s' ! 1))) \<and>
     getPenetrationDepth (heap s' (contacts s' ! 1))
       = dot (minusV (getWorldPointOnBody1 (heap s' (contacts s' ! 1)))
                     (getWorldPointOnBody2 (heap s' (contacts s' ! 1))))
             (getNormal (heap s' (contacts s' ! 1)))"
    by blast
  then have
    "getWorldPointOnBody1 (heap s' 12)
       = applyTransform identityTransform (getLocalPointOnBody1 (heap s' 12)) \<and>
     getWorldPointOnBody2 (heap s' 12)
       = applyTransform liftTransform (getLocalPointOnBody2 (heap s' 12)) \<and>
     getPenetrationDepth (heap s' 12)
       = dot (minusV (getWorldPointOnBody1 (heap s' 12)) (getWorldPointOnBody2 (heap s' 12)))
             (getNormal (heap s' 12))"
    unfolding slot(2) .
  with wf s' shape show ?thesis
    by blast
qed

text \<open>
  C10: \<^verbatim>\<open>update\<close> on a cache with \<open>nbContacts = 0\<close> returns the cache as it was. On
  every well-formed cache \<^verbatim>\<open>update\<close> returns, \<open>nbContacts\<close> has not grown, and the pool
  has received, after what it held, only pointers that were in live slots at entry, one
  for each contact that left the count.
\<close>

theorem update_releases_only_live:
  "(nbContacts s = 0 \<longrightarrow> update PERSISTENT_CONTACT_DIST_THRESHOLD transform1 transform2 s = Some s) \<and>
   (well_formed s \<longrightarrow>
      (\<exists>s'. update PERSISTENT_CONTACT_DIST_THRESHOLD transform1 transform2 s = Some s' \<and>
            nbContacts s' \<le> nbContacts s \<and>
            (\<exists>released. memoryPoolContacts s' = memoryPoolContacts s @ released \<and>
                        set released \<subseteq> liveSlots s \<and>
                        nbContacts s' + length released = nbContacts s)))"
proof (intro conjI impI)
  show "update PERSISTENT_CONTACT_DIST_THRESHOLD transform1 transform2 s = Some s" if "nbContacts s = 0"
    using that by (simp add: update_def)
  show "\<exists>s'. update PERSISTENT_CONTACT_DIST_THRESHOLD transform1 transform2 s = Some s' \<and>
            nbContacts s' \<le> nbContacts s \<and>
            (\<exists>released. memoryPoolContacts s' = memoryPoolContacts s @ released \<and>
                        set released \<subseteq> liveSlots s \<and>
                        nbContacts s' + length released = nbContacts s)"
    if "well_formed s"
    using update_result [OF that, of PERSISTENT_CONTACT_DIST_THRESHOLD transform1 transform2] by blast
qed

theorem update_releases_only_live_witness:
  "nbContacts emptyCache = 0 \<and>
   update recommendedThreshold identityTransform liftTransform emptyCache = Some emptyCache \<and>
   well_formed exampleCache \<and>
   liveSlots exampleCache = {10, 11, 12, 13} \<and>
   (\<exists>s'. update recommendedThreshold identityTransform identityTransform exampleCache = Some s' \<and>
         nbContacts s' = 2 \<and> nbContacts exampleCache = 4 \<and>
         memoryPoolContacts s' = memoryPoolContacts exampleCache @ [13, 11])"
proof -
  have e: "nbContacts emptyCache = 0"
    by (simp add: emptyCache_def PersistentContactCache_new_def)
  have wf: "well_formed exampleCache"
    by (simp add: well_formed_def exampleCache_def MAX_CONTACTS_IN_CACHE_def)
  have live: "liveSlots exampleCache = {10, 11, 12, 13}"
    by (auto simp: liveSlots_def exampleCache_def lessThan_Suc eval_nat_numeral)
  have ev: "map_option (\<lambda>s'. (nbContacts s', memoryPoolContacts s'))
              (update recommendedThreshold identityTransform identityTransform exampleCache)
            = Some (2, [13, 11])"
    by code_simp
  from update_releases_only_live [of exampleCache recommendedThreshold identityTransform identityTransform] wf
  obtain s' released where s': "update recommendedThreshold identityTransform identityTransform exampleCache = Some s'"
    "memoryPoolContacts s' = memoryPoolContacts exampleCache @ released"
    by blast
  from ev s' have "nbContacts s' = 2" "memoryPoolContacts s' = memoryPoolContacts exampleCache @ [13, 11]"
    by (simp_all add: exampleCache_def)
  moreover have "update recommendedThreshold identityTransform liftTransform emptyCache = Some emptyCache"
    using update_releases_only_live [of emptyCache recommendedThreshold identityTransform liftTransform] e by simp
  ultimately show ?thesis
    using e wf live s'(1) by (simp add: exampleCache_def)
qed

text \<open>
  C8: for every contact built from a ContactInfo whose normal has length 1, and every
  \<^verbatim>\<open>getOneOrthogonalVector\<close> that gives for this normal a vector of length 1
  perpendicular to it, the two friction vectors are that vector and the cross product
  of the normal with it, their cross product is the normal, both have length 1, and
  they are perpendicular to each other and to the normal (in exact arithmetic).
\<close>

theorem friction_basis_right_handed:
  assumes "lengthV (info_normal info) = 1"
    and "lengthV (getOneOrthogonalVector (info_normal info)) = 1"
    and "dot (info_normal info) (getOneOrthogonalVector (info_normal info)) = 0"
  shows "let c = Contact_new getOneOrthogonalVector info w1 w2 mu in
           normal c = info_normal info \<and>
           frictionVectors c = [getOneOrthogonalVector (normal c),
                                cross (normal c) (getOneOrthogonalVector (normal c))] \<and>
           cross (frictionVectors c ! 0) (frictionVectors c ! 1) = normal c \<and>
           lengthV (frictionVectors c ! 0) = 1 \<and> lengthV (frictionVectors c ! 1) = 1 \<and>
           dot (frictionVectors c ! 0) (frictionVectors c ! 1) = 0 \<and>
           dot (normal c) (frictionVectors c ! 0) = 0 \<and>
           dot (normal c) (frictionVectors c ! 1) = 0"
proof -
  let ?c0 = "\<lparr>normal = info_normal info,
        penetrationDepth = info_penetrationDepth info,
        localPointOnBody1 = info_localPoint1 info,
        localPointOnBody2 = info_localPoint2 info,
        worldPointOnBody1 = w1,
        worldPointOnBody2 = w2,
        frictionVectors = [],
        mu_mc_g = mu\<rparr>"
  have c0: "normal ?c0 = info_normal info"
    by simp
  from computeFrictionVectors_right_handed [of ?c0 getOneOrthogonalVector] assms
  show ?thesis
    unfolding Contact_new_def c0 by simp
qed

theorem friction_basis_right_handed_witness:
  "lengthV (Vector3 0 0 1) = 1 \<and> lengthV (Vector3 1 0 0) = 1 \<and>
   dot (Vector3 0 0 1) (Vector3 1 0 0) = (0::real) \<and>
   frictionVectors (Contact_new (\<lambda>n. Vector3 1 0 0)
       \<lparr>info_normal = Vector3 0 0 1, info_penetrationDepth = 1,
        info_localPoint1 = Vector3 0 0 0, info_localPoint2 = Vector3 0 0 0\<rparr>
       (Vector3 0 0 0) (Vector3 0 0 0) 0) = [Vector3 1 0 0, Vector3 0 1 (0::real)] \<and>
   cross (Vector3 1 0 0) (Vector3 0 1 0) = Vector3 0 0 (1::real)"
  using friction_basis_right_handed [of "\<lparr>info_normal = Vector3 0 0 1, info_penetrationDepth = 1,
        info_localPoint1 = Vector3 0 0 0, info_localPoint2 = Vector3 0 0 0\<rparr>"
        "\<lambda>n. Vector3 1 0 0" "Vector3 0 0 0" "Vector3 0 0 0" 0]
  by (simp add: lengthV_def lengthSquare_def dot_def cross_def Contact_new_def
        computeFrictionVectors_def Let_def)

text \<open>
  C4: for every well-formed cache and every contact handed to \<^verbatim>\<open>addContact\<close>, if its
  local point on body 1 is approximately equal to that of the contact in some live slot,
  then \<^verbatim>\<open>addContact\<close> returns, the pool has received the new contact once, and
  nothing else has changed: not the count, not the array, not any contact.
\<close>

theorem addContact_duplicate_released:
  assumes "well_formed s" and "i < nbContacts s"
    and "isApproxEqual (getLocalPointOnBody1 (heap s contact))
                       (getLocalPointOnBody1 (heap s (contacts s ! i)))"
  shows "addContact isApproxEqual contact s =
           Some (s\<lparr>memoryPoolContacts := memoryPoolContacts s @ [contact]\<rparr>)"
proof -
  have "duplicateLoop isApproxEqual contact s [0..<nbContacts s]"
    using assms(2,3) by (auto simp: duplicateLoop_iff)
  then show ?thesis
    by (simp add: addContact_def freeObject_def)
qed

theorem addContact_duplicate_released_witness:
  "well_formed nearDuplicateCache \<and> (2::nat) < nbContacts nearDuplicateCache \<and>
   approxEqualWithin (1 / 1000000)
       (getLocalPointOnBody1 (heap nearDuplicateCache 15))
       (getLocalPointOnBody1 (heap nearDuplicateCache (contacts nearDuplicateCache ! 2))) \<and>
   addContact (approxEqualWithin (1 / 1000000)) 15 nearDuplicateCache
     = Some (nearDuplicateCache
               \<lparr>memoryPoolContacts := memoryPoolContacts nearDuplicateCache @ [15]\<rparr>)"
proof -
  have wf: "well_formed nearDuplicateCache"
    by (simp add: well_formed_def nearDuplicateCache_def exampleCache_def
          MAX_CONTACTS_IN_CACHE_def)
  have slot: "(2::nat) < nbContacts nearDuplicateCache"
    by (simp add: nearDuplicateCache_def exampleCache_def)
  have near: "approxEqualWithin (1 / 1000000)
       (getLocalPointOnBody1 (heap nearDuplicateCache 15))
       (getLocalPointOnBody1 (heap nearDuplicateCache (contacts nearDuplicateCache ! 2)))"
    by code_simp
  from addContact_duplicate_released
    [of nearDuplicateCache 2 "approxEqualWithin (1 / 1000000)" 15, OF wf slot near]
    wf slot near
  show ?thesis
    by blast
qed

text \<open>
  C5: for every well-formed full cache and every new contact,
  \<^verbatim>\<open>getIndexOfDeepestPenetration\<close> returns; the result is -1 when no cached contact is
  strictly deeper than the new one; otherwise it is the index of a cached contact whose
  depth is the greatest of the cached depths, and every lower index has a strictly
  smaller depth.
\<close>

theorem getIndexOfDeepestPenetration_first_deepest:
  fixes s :: "'a::linorder PersistentContactCache"
  assumes "well_formed s" and "nbContacts s = MAX_CONTACTS_IN_CACHE"
  shows "\<exists>r. getIndexOfDeepestPenetration newContact s = Some r \<and>
           ((\<forall>i<nbContacts s. getPenetrationDepth (heap s (contacts s ! i))
                                \<le> getPenetrationDepth (heap s newContact)) \<longrightarrow> r = - 1) \<and>
           ((\<exists>i<nbContacts s. getPenetrationDepth (heap s newContact)
                                < getPenetrationDepth (heap s (contacts s ! i))) \<longrightarrow>
              0 \<le> r \<and> nat r < nbContacts s \<and>
              getPenetrationDepth (heap s (contacts s ! nat r))
                = Max ((\<lambda>i. getPenetrationDepth (heap s (contacts s ! i))) ` {..<nbContacts s}) \<and>
              (\<forall>j<nat r. getPenetrationDepth (heap s (contacts s ! j))
                            < getPenetrationDepth (heap s (contacts s ! nat r))))"
proof -
  let ?d = "\<lambda>i. getPenetrationDepth (heap s (contacts s ! i))"
  let ?new = "getPenetrationDepth (heap s newContact)"
  obtain idx mx where loop: "deepestLoop s [0..<nbContacts s] (- 1, ?new) = (idx, mx)"
    by (cases "deepestLoop s [0..<nbContacts s] (- 1, ?new)") auto
  have res: "getIndexOfDeepestPenetration newContact s = Some idx"
    using assms(2) loop by (simp add: getIndexOfDeepestPenetration_def)
  from deepestLoop_upt [OF loop] consider
    (none) "idx = - 1" "\<forall>i<nbContacts s. ?d i \<le> ?new"
    | (some) "0 \<le> idx" "nat idx < nbContacts s" "?new < mx" "mx = ?d (nat idx)"
        "\<forall>i<nbContacts s. ?d i \<le> mx" "\<forall>j<nat idx. ?d j < mx"
    by blast
  then show ?thesis
  proof cases
    case none
    then have "\<not> (\<exists>i<nbContacts s. ?new < ?d i)"
      by (auto simp: not_less)
    with res none show ?thesis by simp
  next
    case some
    have "Max (?d ` {..<nbContacts s}) = ?d (nat idx)"
    proof (rule Max_eqI)
      show "finite (?d ` {..<nbContacts s})" by simp
      show "y \<le> ?d (nat idx)" if "y \<in> ?d ` {..<nbContacts s}" for y
        using that some(4,5) by auto
      show "?d (nat idx) \<in> ?d ` {..<nbContacts s}"
        using some(2) by auto
    qed
    moreover have "\<not> (\<forall>i<nbContacts s. ?d i \<le> ?new)"
      using some(2,3,4) by (auto simp: not_le)
    ultimately show ?thesis
      using res some by simp
  qed
qed

theorem getIndexOfDeepestPenetration_first_deepest_witness:
  "well_formed exampleCache \<and> nbContacts exampleCache = MAX_CONTACTS_IN_CACHE \<and>
   getIndexOfDeepestPenetration 12 exampleCache = Some (- 1) \<and>
   getPenetrationDepth (heap exampleCache 14)
     < getPenetrationDepth (heap exampleCache (contacts exampleCache ! 2)) \<and>
   getIndexOfDeepestPenetration 14 exampleCache = Some 2 \<and>
   getPenetrationDepth (heap exampleCache (contacts exampleCache ! 2))
     = Max ((\<lambda>i. getPenetrationDepth (heap exampleCache (contacts exampleCache ! i)))
              ` {..<nbContacts exampleCache}) \<and>
   getPenetrationDepth (heap exampleCache (contacts exampleCache ! 0))
     < getPenetrationDepth (heap exampleCache (contacts exampleCache ! 2))"
proof -
  have wf: "well_formed exampleCache"
    and full: "nbContacts exampleCache = MAX_CONTACTS_IN_CACHE"
    by (simp_all add: well_formed_def exampleCache_def MAX_CONTACTS_IN_CACHE_def)
  have "\<forall>i<nbContacts exampleCache.
          getPenetrationDepth (heap exampleCache (contacts exampleCache ! i))
            \<le> getPenetrationDepth (heap exampleCache 12)"
    by (simp add: exampleCache_def exampleHeap_def contactAt_def getPenetrationDepth_def
          less_Suc_eq eval_nat_numeral nth_Cons')
  with getIndexOfDeepestPenetration_first_deepest [OF wf full, of 12]
  have r12: "getIndexOfDeepestPenetration 12 exampleCache = Some (- 1)"
    by auto
  have r14: "getIndexOfDeepestPenetration 14 exampleCache = Some 2"
    by code_simp
  have deeper: "getPenetrationDepth (heap exampleCache 14)
     < getPenetrationDepth (heap exampleCache (contacts exampleCache ! 2))"
    by (simp add: exampleCache_def exampleHeap_def contactAt_def getPenetrationDepth_def)
  then have "\<exists>i<nbContacts exampleCache. getPenetrationDepth (heap exampleCache 14)
     < getPenetrationDepth (heap exampleCache (contacts exampleCache ! i))"
    by (intro exI [of _ 2]) (simp add: exampleCache_def)
  with getIndexOfDeepestPenetration_first_deepest [OF wf full, of 14] r14
  have "getPenetrationDepth (heap exampleCache (contacts exampleCache ! 2))
     = Max ((\<lambda>i. getPenetrationDepth (heap exampleCache (contacts exampleCache ! i)))
              ` {..<nbContacts exampleCache})"
    and "\<forall>j<2. getPenetrationDepth (heap exampleCache (contacts exampleCache ! j))
            < getPenetrationDepth (heap exampleCache (contacts exampleCache ! 2))"
    by auto
  with wf full r12 r14 deeper show ?thesis
    by simp
qed

text \<open>
  C9: for every well-formed full cache and every new contact whose local point on
  body 1 is not approximately equal to that of any cached contact, \<^verbatim>\<open>addContact\<close>
  returns; with \<open>k\<close> the index that \<^verbatim>\<open>getIndexToRemove\<close> gives, the result has the new
  contact in slot \<open>k\<close>, every other slot holds the pointer it held before (slot 3 too
  when \<open>k < 3\<close>), the count is 4 again, no contact object was written, and the pool has
  received exactly the pointer that was in slot \<open>k\<close>.
\<close>

theorem addContact_full_keeps_other_slots:
  assumes "well_formed s" and "nbContacts s = MAX_CONTACTS_IN_CACHE"
    and "\<forall>i<nbContacts s. \<not> isApproxEqual (getLocalPointOnBody1 (heap s contact))
                                           (getLocalPointOnBody1 (heap s (contacts s ! i)))"
  shows "\<exists>indexMaxPenetration k s'.
           getIndexOfDeepestPenetration contact s = Some indexMaxPenetration \<and>
           getIndexToRemove indexMaxPenetration (getLocalPointOnBody1 (heap s contact)) s
             = Some (int k) \<and>
           k < MAX_CONTACTS_IN_CACHE \<and>
           addContact isApproxEqual contact s = Some s' \<and>
           nbContacts s' = MAX_CONTACTS_IN_CACHE \<and>
           length (contacts s') = MAX_CONTACTS_IN_CACHE \<and>
           contacts s' ! k = contact \<and>
           (\<forall>j<MAX_CONTACTS_IN_CACHE. j \<noteq> k \<longrightarrow> contacts s' ! j = contacts s ! j) \<and>
           heap s' = heap s \<and>
           memoryPoolContacts s' = memoryPoolContacts s @ [contacts s ! k]"
proof -
  have fresh: "\<not> duplicateLoop isApproxEqual contact s [0..<nbContacts s]"
    using assms(3) by (simp add: duplicateLoop_iff)
  from getIndexOfDeepestPenetration_Some [OF assms(2)] obtain r where
    r: "getIndexOfDeepestPenetration contact s = Some r" by blast
  from getIndexToRemove_range [OF assms(2)] obtain k where
    k: "k < MAX_CONTACTS_IN_CACHE"
       "getIndexToRemove r (getLocalPointOnBody1 (heap s contact)) s = Some (int k)"
    by blast
  let ?s' = "s\<lparr>memoryPoolContacts := memoryPoolContacts s @ [contacts s ! k],
                contacts := (contacts s)[k := contact]\<rparr>"
  have "addContact isApproxEqual contact s = Some ?s'"
    using addContact_full [OF assms(1,2) fresh r k(2,1)] .
  moreover have "nbContacts ?s' = MAX_CONTACTS_IN_CACHE"
    "length (contacts ?s') = MAX_CONTACTS_IN_CACHE" "contacts ?s' ! k = contact"
    "\<forall>j<MAX_CONTACTS_IN_CACHE. j \<noteq> k \<longrightarrow> contacts ?s' ! j = contacts s ! j"
    "heap ?s' = heap s" "memoryPoolContacts ?s' = memoryPoolContacts s @ [contacts s ! k]"
    using assms(1,2) k(1) by (simp_all add: well_formed_def)
  ultimately show ?thesis
    using r k by blast
qed

theorem addContact_full_keeps_other_slots_witness:
  "well_formed exampleCache \<and> nbContacts exampleCache = MAX_CONTACTS_IN_CACHE \<and>
   \<not> duplicateLoop (approxEqualWithin (1 / 1000000)) 14 exampleCache [0..<4] \<and>
   getIndexOfDeepestPenetration 14 exampleCache = Some 2 \<and>
   getIndexToRemove 2 (getLocalPointOnBody1 (heap exampleCache 14)) exampleCache = Some 0 \<and>
   contacts exampleCache = [10, 11, 12, 13] \<and>
   (\<exists>s'. addContact (approxEqualWithin (1 / 1000000)) 14 exampleCache = Some s' \<and>
         nbContacts s' = 4 \<and> contacts s' ! 0 = 14 \<and> contacts s' ! 1 = 11 \<and>
         contacts s' ! 2 = 12 \<and> contacts s' ! 3 = 13 \<and> memoryPoolContacts s' = [10])"
proof -
  have wf: "well_formed exampleCache"
    and full: "nbContacts exampleCache = MAX_CONTACTS_IN_CACHE"
    and arr: "contacts exampleCache = [10, 11, 12, 13]"
    and pool: "memoryPoolContacts exampleCache = []"
    by (simp_all add: well_formed_def exampleCache_def MAX_CONTACTS_IN_CACHE_def)
  have loop: "\<not> duplicateLoop (approxEqualWithin (1 / 1000000)) 14 exampleCache [0..<4]"
    by code_simp
  then have fresh: "\<forall>i<nbContacts exampleCache.
      \<not> approxEqualWithin (1 / 1000000) (getLocalPointOnBody1 (heap exampleCache 14))
           (getLocalPointOnBody1 (heap exampleCache (contacts exampleCache ! i)))"
    by (simp add: duplicateLoop_iff full MAX_CONTACTS_IN_CACHE_def)
  have r: "getIndexOfDeepestPenetration 14 exampleCache = Some 2"
    and k: "getIndexToRemove 2 (getLocalPointOnBody1 (heap exampleCache 14)) exampleCache = Some 0"
    by code_simp+
  from addContact_full_keeps_other_slots
    [of exampleCache "approxEqualWithin (1 / 1000000)" 14, OF wf full fresh] r k
  obtain s' where s': "addContact (approxEqualWithin (1 / 1000000)) 14 exampleCache = Some s'"
    "nbContacts s' = MAX_CONTACTS_IN_CACHE" "contacts s' ! 0 = 14"
    "\<forall>j<MAX_CONTACTS_IN_CACHE. j \<noteq> 0 \<longrightarrow> contacts s' ! j = contacts exampleCache ! j"
    "memoryPoolContacts s' = memoryPoolContacts exampleCache @ [contacts exampleCache ! 0]"
    by auto
  from s'(4) have "contacts s' ! 1 = 11" "contacts s' ! 2 = 12" "contacts s' ! 3 = 13"
    by (simp_all add: MAX_CONTACTS_IN_CACHE_def arr)
  with wf full loop r k arr s'(1,2,3,5) show ?thesis
    by (simp add: MAX_CONTACTS_IN_CACHE_def pool)
qed

text \<open>
  C7: for every sequence of add, update and clear operations applied to a freshly
  constructed cache (whose array has its four slots), every prefix of the sequence
  runs to a state, and in that state \<open>0 \<le> nbContacts \<le> 4\<close>.
\<close>

theorem nbContacts_bounded:
  assumes "length array = MAX_CONTACTS_IN_CACHE"
  shows "\<exists>s. apply_operations PERSISTENT_CONTACT_DIST_THRESHOLD isApproxEqual (take n operations)
                (PersistentContactCache_new b1 b2 pool array h) = Some s \<and>
             0 \<le> nbContacts s \<and> nbContacts s \<le> 4"
proof -
  have "well_formed (PersistentContactCache_new b1 b2 pool array h)"
    using assms by (simp add: well_formed_def PersistentContactCache_new_def)
  from apply_operations_well_formed [OF this] show ?thesis
    by (fastforce simp: well_formed_def MAX_CONTACTS_IN_CACHE_def)
qed

theorem nbContacts_bounded_witness:
  "length [0, 0, 0, 0 :: ptr] = MAX_CONTACTS_IN_CACHE \<and>
   (\<exists>s. apply_operations recommendedThreshold (approxEqualWithin (1 / 1000000)) (take 5 exampleOperations)
           (PersistentContactCache_new 1 2 [] [0, 0, 0, 0] exampleHeap) = Some s \<and>
        nbContacts s = 4 \<and> nbContacts s \<le> 4) \<and>
   (\<exists>s. apply_operations recommendedThreshold (approxEqualWithin (1 / 1000000)) (take 6 exampleOperations)
           (PersistentContactCache_new 1 2 [] [0, 0, 0, 0] exampleHeap) = Some s \<and>
        nbContacts s = 2 \<and> nbContacts s \<le> 4)"
proof -
  have len: "length [0, 0, 0, 0 :: ptr] = MAX_CONTACTS_IN_CACHE"
    by (simp add: MAX_CONTACTS_IN_CACHE_def)
  have ev5: "map_option nbContacts
      (apply_operations recommendedThreshold (approxEqualWithin (1 / 1000000)) (take 5 exampleOperations)
         (PersistentContactCache_new 1 2 [] [0, 0, 0, 0] exampleHeap)) = Some 4"
    and ev6: "map_option nbContacts
      (apply_operations recommendedThreshold (approxEqualWithin (1 / 1000000)) (take 6 exampleOperations)
         (PersistentContactCache_new 1 2 [] [0, 0, 0, 0] exampleHeap)) = Some 2"
    by code_simp+
  from nbContacts_bounded [OF len, of recommendedThreshold "approxEqualWithin (1 / 1000000)" 5 exampleOperations
      1 2 "[]" exampleHeap] ev5
  have "\<exists>s. apply_operations recommendedThreshold (approxEqualWithin (1 / 1000000)) (take 5 exampleOperations)
           (PersistentContactCache_new 1 2 [] [0, 0, 0, 0] exampleHeap) = Some s \<and>
        nbContacts s = 4 \<and> nbContacts s \<le> 4"
    by auto
  moreover
  from nbContacts_bounded [OF len, of recommendedThreshold "approxEqualWithin (1 / 1000000)" 6 exampleOperations
      1 2 "[]" exampleHeap] ev6
  have "\<exists>s. apply_operations recommendedThreshold (approxEqualWithin (1 / 1000000)) (take 6 exampleOperations)
           (PersistentContactCache_new 1 2 [] [0, 0, 0, 0] exampleHeap) = Some s \<and>
        nbContacts s = 2 \<and> nbContacts s \<le> 4"
    by auto
  ultimately show ?thesis
    using len by blast
qed

text \<open>
  C1 at a concrete input: the four cached contacts lie on one line and the one in slot 0
  is the deepest, so \<^verbatim>\<open>getIndexOfDeepestPenetration\<close> gives 0; the three other scores
  are 0 as well, \<^verbatim>\<open>getIndexToRemove\<close> gives 0, and \<^verbatim>\<open>addContact\<close> releases the contact
  of slot 0 (address 20) and puts the new one (address 24) there.
\<close>

theorem addContact_evicts_deepest_on_a_line:
  "well_formed collinearCache \<and> nbContacts collinearCache = 4 \<and>
   contacts collinearCache = [20, 21, 22, 23] \<and>
   \<not> duplicateLoop (approxEqualWithin (1 / 1000000)) 24 collinearCache [0..<4] \<and>
   getIndexOfDeepestPenetration 24 collinearCache = Some 0 \<and>
   getIndexToRemove 0 (getLocalPointOnBody1 (heap collinearCache 24)) collinearCache = Some 0 \<and>
   map_option (\<lambda>s'. (nbContacts s', contacts s', memoryPoolContacts s'))
       (addContact (approxEqualWithin (1 / 1000000)) 24 collinearCache)
     = Some (4, [24, 21, 22, 23], [20])"
proof -
  have "well_formed collinearCache" "nbContacts collinearCache = 4"
    "contacts collinearCache = [20, 21, 22, 23]"
    by (simp_all add: well_formed_def collinearCache_def MAX_CONTACTS_IN_CACHE_def)
  moreover have "\<not> duplicateLoop (approxEqualWithin (1 / 1000000)) 24 collinearCache [0..<4]"
    by code_simp
  moreover have "getIndexOfDeepestPenetration 24 collinearCache = Some 0"
    by code_simp
  moreover have
    "getIndexToRemove 0 (getLocalPointOnBody1 (heap collinearCache 24)) collinearCache = Some 0"
    by code_simp
  moreover have "map_option (\<lambda>s'. (nbContacts s', contacts s', memoryPoolContacts s'))
       (addContact (approxEqualWithin (1 / 1000000)) 24 collinearCache)
     = Some (4, [24, 21, 22, 23], [20])"
    by code_simp
  ultimately show ?thesis by simp
qed

end
